theory Spec2Isabelle
  imports Complex_Main "HOL-Library.Log_Nat"
begin

section \<open>Python values used by the arbitrage monitor\<close>

text \<open>
  The bot (\<^verbatim>\<open>bot/final_bot.py\<close>) computes prices and profits with Python \<^verbatim>\<open>float\<close>s,
  that is IEEE 754 binary64 numbers. A float is modelled by the rational number it
  denotes, or one of the three special values; every arithmetic operation computes the
  exact result and rounds it to the nearest binary64 number, ties to even, as the hardware
  does. The sign of zero is not represented: none of the modelled code can observe it
  (comparisons and truth tests treat \<^verbatim>\<open>-0.0\<close> as \<^verbatim>\<open>0.0\<close>, and dividing by either raises).
\<close>

datatype pyfloat = Finite rat | PInf | NInf | NaN

datatype py_error = ZeroDivisionError | OverflowError | ValueError | KeyError string | IndexError
  | RuntimeError | RpcError string | TimeExhausted

text \<open>\<open>float_exponent x\<close> is \<open>\<lfloor>log\<^sub>2 \<bar>x\<bar>\<rfloor>\<close> for \<open>x \<noteq> 0\<close>.\<close>

definition float_exponent :: "rat \<Rightarrow> int" where
  "float_exponent x =
     (if 1 \<le> \<bar>x\<bar> then bitlen \<lfloor>\<bar>x\<bar>\<rfloor> - 1 else - bitlen (\<lceil>1 / \<bar>x\<bar>\<rceil> - 1))"

definition pow2 :: "int \<Rightarrow> rat" where
  "pow2 e = (if 0 \<le> e then 2 ^ nat e else 1 / 2 ^ nat (- e))"

definition round_half_even :: "rat \<Rightarrow> int" where
  "round_half_even y =
     (let n = \<lfloor>y\<rfloor>; r = y - of_int n
      in if r < 1 / 2 then n else if 1 / 2 < r then n + 1 else if even n then n else n + 1)"

text \<open>
  Rounding to binary64: 53 significant bits, smallest normal exponent \<open>-1022\<close> (below it
  the spacing stays \<open>2\<^sup>-\<^sup>1\<^sup>0\<^sup>7\<^sup>4\<close>), overflow to an infinity from \<open>2\<^sup>1\<^sup>0\<^sup>2\<^sup>4\<close> on. A number
  below \<open>2\<^sup>1\<^sup>0\<^sup>2\<^sup>3\<close> cannot round up to that bound, so the overflow test is only made from
  exponent 1023 on.
\<close>

definition fround :: "rat \<Rightarrow> pyfloat" where
  "fround x =
     (if x = 0 then Finite 0
      else let e = max (float_exponent x) (- 1022);
               q = pow2 (e - 52);
               y = of_int (round_half_even (x / q)) * q
           in if e < 1023 then Finite y
              else if pow2 1024 \<le> \<bar>y\<bar> then (if 0 < x then PInf else NInf) else Finite y)"

text \<open>A float literal of the source, such as \<^verbatim>\<open>0.8\<close>, denotes the nearest binary64 number.\<close>

abbreviation lit :: "rat \<Rightarrow> pyfloat" where
  "lit x \<equiv> fround x"

fun fsign :: "pyfloat \<Rightarrow> int" where
  "fsign (Finite a) = (if a < 0 then - 1 else if a = 0 then 0 else 1)"
| "fsign PInf = 1"
| "fsign NInf = - 1"
| "fsign NaN = 0"

fun fneg :: "pyfloat \<Rightarrow> pyfloat" where
  "fneg (Finite a) = Finite (- a)"
| "fneg PInf = NInf"
| "fneg NInf = PInf"
| "fneg NaN = NaN"

fun fadd :: "pyfloat \<Rightarrow> pyfloat \<Rightarrow> pyfloat" where
  "fadd NaN _ = NaN"
| "fadd _ NaN = NaN"
| "fadd (Finite a) (Finite b) = fround (a + b)"
| "fadd PInf NInf = NaN"
| "fadd NInf PInf = NaN"
| "fadd PInf _ = PInf"
| "fadd _ PInf = PInf"
| "fadd NInf _ = NInf"
| "fadd _ NInf = NInf"

definition fsub :: "pyfloat \<Rightarrow> pyfloat \<Rightarrow> pyfloat" where
  "fsub x y = fadd x (fneg y)"

fun fmul :: "pyfloat \<Rightarrow> pyfloat \<Rightarrow> pyfloat" where
  "fmul NaN _ = NaN"
| "fmul _ NaN = NaN"
| "fmul (Finite a) (Finite b) = fround (a * b)"
| "fmul x y = (if fsign x * fsign y = 0 then NaN else if 0 < fsign x * fsign y then PInf else NInf)"

text \<open>Python raises \<^verbatim>\<open>ZeroDivisionError\<close> on a zero divisor instead of returning an infinity.\<close>

fun fdiv_nonzero :: "pyfloat \<Rightarrow> pyfloat \<Rightarrow> pyfloat" where
  "fdiv_nonzero NaN _ = NaN"
| "fdiv_nonzero _ NaN = NaN"
| "fdiv_nonzero (Finite a) (Finite b) = fround (a / b)"
| "fdiv_nonzero (Finite a) _ = Finite 0"
| "fdiv_nonzero x (Finite b) = (if 0 < fsign x * fsign (Finite b) then PInf else NInf)"
| "fdiv_nonzero _ _ = NaN"

definition fdiv :: "pyfloat \<Rightarrow> pyfloat \<Rightarrow> py_error + pyfloat" where
  "fdiv x y = (if y = Finite 0 then Inl ZeroDivisionError else Inr (fdiv_nonzero x y))"

fun flt :: "pyfloat \<Rightarrow> pyfloat \<Rightarrow> bool" where
  "flt NaN _ = False"
| "flt _ NaN = False"
| "flt (Finite a) (Finite b) = (a < b)"
| "flt NInf NInf = False"
| "flt NInf _ = True"
| "flt _ NInf = False"
| "flt PInf _ = False"
| "flt _ PInf = True"

text \<open>Truth value of a float: everything but zero, the special values included.\<close>

fun ftruthy :: "pyfloat \<Rightarrow> bool" where
  "ftruthy (Finite a) = (a \<noteq> 0)"
| "ftruthy _ = True"

text \<open>
  An \<^verbatim>\<open>int\<close> compared with a float is compared exactly; an \<^verbatim>\<open>int\<close> that enters float
  arithmetic is first converted, which rounds and raises \<^verbatim>\<open>OverflowError\<close> beyond the range.
\<close>

definition of_pyint :: "int \<Rightarrow> pyfloat" where
  "of_pyint i = Finite (of_int i)"

definition int_to_float :: "int \<Rightarrow> py_error + pyfloat" where
  "int_to_float i =
     (case fround (of_int i) of PInf \<Rightarrow> Inl OverflowError | NInf \<Rightarrow> Inl OverflowError
      | r \<Rightarrow> Inr r)"

text \<open>\<^verbatim>\<open>a / b\<close> on two \<^verbatim>\<open>int\<close>s: the correctly rounded quotient.\<close>

definition int_truediv :: "int \<Rightarrow> int \<Rightarrow> py_error + pyfloat" where
  "int_truediv a b =
     (if b = 0 then Inl ZeroDivisionError
      else case fround (of_int a / of_int b) of PInf \<Rightarrow> Inl OverflowError
           | NInf \<Rightarrow> Inl OverflowError | r \<Rightarrow> Inr r)"

text \<open>\<^verbatim>\<open>int(x)\<close> on a float truncates towards zero.\<close>

fun py_int :: "pyfloat \<Rightarrow> py_error + int" where
  "py_int (Finite a) = Inr (if 0 \<le> a then \<lfloor>a\<rfloor> else \<lceil>a\<rceil>)"
| "py_int NaN = Inl ValueError"
| "py_int _ = Inl OverflowError"

text \<open>\<^verbatim>\<open>str.lower()\<close> on the ASCII strings that addresses are.\<close>

definition lower_char :: "char \<Rightarrow> char" where
  "lower_char c =
     (if 65 \<le> (of_char c :: nat) \<and> (of_char c :: nat) \<le> 90 then char_of (of_char c + 32 :: nat) else c)"

definition lower :: "string \<Rightarrow> string" where
  "lower s = map lower_char s"

section \<open>Data model\<close>

record DEXInfo =
  name :: string
  router_address :: string
  factory_address :: string

record token =
  address :: string
  symbol :: string

record ArbitrageOpportunity =
  token_address :: string
  token_symbol :: string
  stable_token :: string
  amount :: int
  buy_dex :: string
  sell_dex :: string
  buy_price :: pyfloat
  sell_price :: pyfloat
  expected_profit :: pyfloat
  gas_cost :: pyfloat
  net_profit :: pyfloat
  timestamp :: nat

text \<open>
  The argument of the contract's \<^verbatim>\<open>executeArbitrage\<close>: token, stable asset, flash-loan
  amount, router of the cheap DEX, router of the dear DEX, user, minimal profit. A
  transaction is that argument with gas limit, gas price and nonce.
\<close>

type_synonym arb_params = "string \<times> string \<times> int \<times> string \<times> string \<times> string \<times> int"

type_synonym transaction = "arb_params \<times> int \<times> int \<times> int"

text \<open>
  Where the coroutine \<^verbatim>\<open>execute_arbitrage\<close> of a task stands: not yet run, suspended in
  \<^verbatim>\<open>trade_lock.acquire()\<close>, inside the \<^verbatim>\<open>try\<close> block with the lock held, returned, or
  left by an exception.
\<close>

datatype coro = Start | Suspended | Holding | Returned | Raised py_error

text \<open>What an observer sees of the lock, the log and the clock, in order.\<close>

datatype event =
    LockAcquired nat
  | LockReleased nat
  | Sleep nat
  | LogLockBusy
  | LogSuccess
  | LogReverted int
  | LogExecutionError
  | LogFilterExpired
  | LogSubscriptionError
  | LogUnstable nat

text \<open>A number decoded from JSON is an \<^verbatim>\<open>int\<close> or a \<^verbatim>\<open>float\<close>.\<close>

datatype pynum = PInt int | PFloat pyfloat

text \<open>What the bot asks of the outside world, in the order of the calls.\<close>

datatype rpc =
    DecimalsCall string
  | GetAmountsOut string int "string list"
  | GetGasPrice
  | EthUsdFeed
  | GetTransactionCount string
  | BuildTransaction transaction
  | SendRawTransaction string
  | WaitForTransactionReceipt string nat
  | NewFilter string
  | GetNewEntries nat
  | GetPair string string string

text \<open>
  The outside world: the \<^verbatim>\<open>web3\<close> library, the node behind it and the price feed. Every
  answer may depend on how many requests were made before (the first argument), so the same
  request can be answered differently over time; \<open>None\<close> is a raised exception, \<open>False\<close>
  for \<^verbatim>\<open>build_transaction\<close> as well. A log filter is known by a number; creating one or
  polling it gives the message of the exception (\<open>Inl\<close>) or the filter (the number of new
  entries).
\<close>

record chain =
  to_checksum_address :: "string \<Rightarrow> string option"
  decimals_call :: "nat \<Rightarrow> string \<Rightarrow> nat option"
  getAmountsOut_call :: "nat \<Rightarrow> string \<Rightarrow> int \<Rightarrow> string list \<Rightarrow> int list option"
  get_gas_price :: "nat \<Rightarrow> int option"
  eth_usd_feed :: "nat \<Rightarrow> pynum option"
  now :: "nat \<Rightarrow> nat"
  get_transaction_count :: "nat \<Rightarrow> string \<Rightarrow> int option"
  build_transaction :: "nat \<Rightarrow> transaction \<Rightarrow> bool"
  sign_transaction :: "transaction \<Rightarrow> string option"
  send_raw_transaction :: "nat \<Rightarrow> string \<Rightarrow> string option"
  wait_for_transaction_receipt :: "nat \<Rightarrow> string \<Rightarrow> nat \<Rightarrow> int option"
  new_filter :: "nat \<Rightarrow> string \<Rightarrow> string + nat"
  get_new_entries :: "nat \<Rightarrow> nat \<Rightarrow> string + nat"
  getPair_call :: "nat \<Rightarrow> string \<Rightarrow> string \<Rightarrow> string \<Rightarrow> string option"

text \<open>
  The fields of \<^verbatim>\<open>ArbitrageMonitor\<close> that the monitoring engine reads or writes, with a
  record of the requests issued so far, the tasks made by
  \<^verbatim>\<open>asyncio.create_task(self.execute_arbitrage(opportunity))\<close> in order of creation (a task
  is known by its position), and the observable events. \<^verbatim>\<open>trade_lock\<close> is an
  \<^verbatim>\<open>asyncio.Lock\<close>: a flag and the queue of the tasks suspended in \<^verbatim>\<open>acquire()\<close>.
\<close>

record monitor =
  dexes :: "string \<rightharpoonup> DEXInfo"
  stable_tokens :: "string \<rightharpoonup> string"
  account_address :: string
  selected_dexes :: "string list"
  is_monitoring :: bool
  price_cache :: "string \<rightharpoonup> (string \<rightharpoonup> pyfloat)"
  decimals_cache :: "string \<rightharpoonup> nat"
  min_profit_threshold :: int
  max_flash_loan_amount :: int
  locked :: bool
  waiters :: "nat list"
  rpc_log :: "rpc list"
  tasks :: "(ArbitrageOpportunity \<times> coro) list"
  trace :: "event list"

section \<open>Decimal lookup and quoting\<close>

text \<open>\<^verbatim>\<open>ArbitrageMonitor.get_token_decimals\<close>: the fallback 18 is returned, not stored.\<close>

definition get_token_decimals :: "chain \<Rightarrow> string \<Rightarrow> monitor \<Rightarrow> nat \<times> monitor" where
  "get_token_decimals env token_addr s =
     (let token_address_lower = lower token_addr
      in case decimals_cache s token_address_lower of
           Some d \<Rightarrow> (d, s)
         | None \<Rightarrow>
             (case to_checksum_address env token_addr of
                None \<Rightarrow> (18, s)
              | Some a \<Rightarrow>
                  (let s1 = s\<lparr>rpc_log := rpc_log s @ [DecimalsCall a]\<rparr>
                   in case decimals_call env (length (rpc_log s)) a of
                        None \<Rightarrow> (18, s1)
                      | Some d \<Rightarrow>
                          (d, s1\<lparr>decimals_cache := (decimals_cache s1)(token_address_lower \<mapsto> d)\<rparr>))))"

text \<open>The test \<^verbatim>\<open>0 < price < 1e12\<close> of \<^verbatim>\<open>get_token_price\<close>.\<close>

definition price_sane :: "pyfloat \<Rightarrow> bool" where
  "price_sane price \<longleftrightarrow> flt (of_pyint 0) price \<and> flt price (lit (10 ^ 12))"

text \<open>
  The quotient \<^verbatim>\<open>amounts_out[1] / (10**stable_decimals)\<close>: the second amount of the
  router's answer over the scale of the stable asset, both \<^verbatim>\<open>int\<close>s.
\<close>

definition normalized_price :: "int list \<Rightarrow> nat \<Rightarrow> py_error + pyfloat" where
  "normalized_price amounts_out stable_decimals =
     (if length amounts_out < 2 then Inl IndexError
      else int_truediv (amounts_out ! 1) (10 ^ stable_decimals))"

text \<open>
  \<^verbatim>\<open>ArbitrageMonitor.get_token_price\<close>. Whatever is raised inside the \<^verbatim>\<open>try\<close> block gives
  \<open>None\<close>; the decimals already cached by then stay cached.
\<close>

definition get_token_price ::
  "chain \<Rightarrow> string \<Rightarrow> string \<Rightarrow> string \<Rightarrow> monitor \<Rightarrow> pyfloat option \<times> monitor" where
  "get_token_price env token_addr stable_tok dex_key s =
     (case dexes s dex_key of
        None \<Rightarrow> (None, s)
      | Some dex \<Rightarrow>
     (case to_checksum_address env (router_address dex) of
        None \<Rightarrow> (None, s)
      | Some router_addr \<Rightarrow>
     (let (token_decimals, s1) = get_token_decimals env token_addr s
      in case stable_tokens s1 stable_tok of
        None \<Rightarrow> (None, s1)
      | Some stable_addr \<Rightarrow>
     (let (stable_decimals, s2) = get_token_decimals env stable_addr s1;
          amount_in = 10 ^ token_decimals
      in case to_checksum_address env token_addr of
        None \<Rightarrow> (None, s2)
      | Some t \<Rightarrow>
     (case to_checksum_address env stable_addr of
        None \<Rightarrow> (None, s2)
      | Some st \<Rightarrow>
     (let s3 = s2\<lparr>rpc_log := rpc_log s2 @ [GetAmountsOut router_addr amount_in [t, st]]\<rparr>
      in case getAmountsOut_call env (length (rpc_log s2)) router_addr amount_in [t, st] of
        None \<Rightarrow> (None, s3)
      | Some amounts_out \<Rightarrow>
          (case normalized_price amounts_out stable_decimals of
             Inl e \<Rightarrow> (None, s3)
           | Inr price \<Rightarrow> (if price_sane price then Some price else None, s3))))))))"

section \<open>Price cache\<close>

text \<open>\<^verbatim>\<open>ArbitrageMonitor.update_price_for_dex\<close>\<close>

definition update_price_for_dex ::
  "chain \<Rightarrow> token \<Rightarrow> string \<Rightarrow> string \<Rightarrow> monitor \<Rightarrow> pyfloat option \<times> monitor" where
  "update_price_for_dex env tok stable_tok dex_key s =
     (let (r, s1) = get_token_price env (address tok) stable_tok dex_key s
      in case r of
           None \<Rightarrow> (None, s1)
         | Some price \<Rightarrow>
             if ftruthy price then
               (let key = lower (address tok);
                    inner = (case price_cache s1 key of None \<Rightarrow> Map.empty | Some m \<Rightarrow> m)
                in (Some price, s1\<lparr>price_cache := (price_cache s1)(key \<mapsto> inner(dex_key \<mapsto> price))\<rparr>))
             else (None, s1))"

text \<open>A sequence of price updates, as the watchers and the initial fetch issue them.\<close>

fun run_updates :: "chain \<Rightarrow> (token \<times> string \<times> string) list \<Rightarrow> monitor \<Rightarrow> monitor" where
  "run_updates env [] s = s"
| "run_updates env ((tok, stable_tok, dex_key) # us) s =
     run_updates env us (snd (update_price_for_dex env tok stable_tok dex_key s))"

text \<open>Every cached price passes the quote's sanity test.\<close>

definition cache_valid :: "monitor \<Rightarrow> bool" where
  "cache_valid s \<longleftrightarrow>
     (\<forall>k m d p. price_cache s k = Some m \<longrightarrow> m d = Some p \<longrightarrow> price_sane p)"


section \<open>The configuration of the constructor and sample surroundings\<close>

text \<open>
  The state \<^verbatim>\<open>ArbitrageMonitor.__init__\<close> sets up, for the account address derived from
  the signing key.
\<close>

definition init_monitor :: "string \<Rightarrow> monitor" where
  "init_monitor acct =
     \<lparr>dexes =
        [''uniswap_v2'' \<mapsto> \<lparr>name = ''Uniswap V2 (Base)'',
            router_address = ''0x4752ba5dbc23f44d87826276bf6fd6b1c372ad24'',
            factory_address = ''0x8909dc15e40173ff4699343b6eb8132c65e18ec6''\<rparr>,
         ''pancake'' \<mapsto> \<lparr>name = ''PancakeSwap V2'',
            router_address = ''0x8cFe327CEc66d1C090Dd72bd0FF11d690C33a2Eb'',
            factory_address = ''0x02a84c1b3BBD7401a5f7fa98a384EBC70bB5749E''\<rparr>,
         ''baseswap'' \<mapsto> \<lparr>name = ''BaseSwap'',
            router_address = ''0x327Df1E6de05895d2ab08513aaDD9313Fe505d86'',
            factory_address = ''0xFDa619b6d20975be80A10332cD39b9a4b0FAa8BB''\<rparr>,
         ''sushiswap_v2'' \<mapsto> \<lparr>name = ''SushiSwap V2'',
            router_address = ''0x6BDED42c6DA8FBf0d2bA55B2fa120C5e0c8D7891'',
            factory_address = ''0x71524B4f93c58fcbF659783284E38825f0622859''\<rparr>],
      stable_tokens = [''USDC'' \<mapsto> ''0x833589fCD6eDb6E08f4c7C32D4f71b54bdA02913''],
      account_address = acct,
      selected_dexes = [],
      is_monitoring = False,
      price_cache = Map.empty,
      decimals_cache = Map.empty,
      min_profit_threshold = 10,
      max_flash_loan_amount = 5000,
      locked = False,
      waiters = [],
      rpc_log = [],
      tasks = [],
      trace = []\<rparr>"

text \<open>
  A node for the examples: every address is accepted as it is, tokens have 18 decimals
  and the stable asset 6, a router quotes the given amount of stable units for one token,
  filters can be made and report no entries, and nothing else is available (gas price,
  price feed, pools, transactions).
\<close>

definition sample_chain :: "int \<Rightarrow> chain" where
  "sample_chain quote =
     \<lparr>to_checksum_address = Some,
      decimals_call = (\<lambda>n a. if a = ''0x833589fCD6eDb6E08f4c7C32D4f71b54bdA02913'' then Some 6 else Some 18),
      getAmountsOut_call = (\<lambda>n r amount_in path. Some [amount_in, quote]),
      get_gas_price = (\<lambda>n. None),
      eth_usd_feed = (\<lambda>n. None),
      now = (\<lambda>n. n),
      get_transaction_count = (\<lambda>n a. None),
      build_transaction = (\<lambda>n tx. False),
      sign_transaction = (\<lambda>tx. None),
      send_raw_transaction = (\<lambda>n raw. None),
      wait_for_transaction_receipt = (\<lambda>n h timeout. None),
      new_filter = (\<lambda>n a. Inr n),
      get_new_entries = (\<lambda>n f. Inr 0),
      getPair_call = (\<lambda>n f a b. None)\<rparr>"

text \<open>A node that answers no request at all.\<close>

definition dead_chain :: chain where
  "dead_chain =
     \<lparr>to_checksum_address = Some,
      decimals_call = (\<lambda>n a. None),
      getAmountsOut_call = (\<lambda>n r amount_in path. None),
      get_gas_price = (\<lambda>n. None),
      eth_usd_feed = (\<lambda>n. None),
      now = (\<lambda>n. n),
      get_transaction_count = (\<lambda>n a. None),
      build_transaction = (\<lambda>n tx. False),
      sign_transaction = (\<lambda>tx. None),
      send_raw_transaction = (\<lambda>n raw. None),
      wait_for_transaction_receipt = (\<lambda>n h timeout. None),
      new_filter = (\<lambda>n a. Inl ''connection refused''),
      get_new_entries = (\<lambda>n f. Inl ''connection refused''),
      getPair_call = (\<lambda>n f a b. None)\<rparr>"

definition weth :: token where
  "weth = \<lparr>address = ''0x4200000000000000000000000000000000000006'', symbol = ''WETH''\<rparr>"

text \<open>A node whose router answers the first three requests and rejects every later one.\<close>

definition flaky_chain :: "int \<Rightarrow> chain" where
  "flaky_chain quote =
     (sample_chain quote)\<lparr>getAmountsOut_call :=
        (\<lambda>n r amount_in path. if n < 3 then Some [amount_in, quote] else None)\<rparr>"

section \<open>Gas cost and spread evaluation\<close>

text \<open>
  \<^verbatim>\<open>ArbitrageMonitor.estimate_gas_cost\<close>: gas price times 600000, converted from wei by
  \<^verbatim>\<open>from_wei\<close> (an exact decimal, defined for amounts up to \<open>2\<^sup>2\<^sup>5\<^sup>6 - 1\<close>) and then to a float,
  times the feed's price; 10.0 when anything fails.
\<close>

definition estimate_gas_cost :: "chain \<Rightarrow> monitor \<Rightarrow> pyfloat \<times> monitor" where
  "estimate_gas_cost env s =
     (let s1 = s\<lparr>rpc_log := rpc_log s @ [GetGasPrice]\<rparr>
      in case get_gas_price env (length (rpc_log s)) of
           None \<Rightarrow> (lit 10, s1)
         | Some gas_price \<Rightarrow>
             (let estimated_gas_limit = 600000;
                  gas_cost_wei = gas_price * estimated_gas_limit
              in if gas_cost_wei < 0 \<or> 2 ^ 256 - 1 < gas_cost_wei then (lit 10, s1)
                 else
                   (let gas_cost_eth = fround (of_int gas_cost_wei / 10 ^ 18);
                        s2 = s1\<lparr>rpc_log := rpc_log s1 @ [EthUsdFeed]\<rparr>
                    in case eth_usd_feed env (length (rpc_log s1)) of
                         None \<Rightarrow> (lit 10, s2)
                       | Some (PFloat eth_price_usd) \<Rightarrow> (fmul gas_cost_eth eth_price_usd, s2)
                       | Some (PInt eth_price_usd) \<Rightarrow>
                           (case int_to_float eth_price_usd of
                              Inl e \<Rightarrow> (lit 10, s2)
                            | Inr f \<Rightarrow> (fmul gas_cost_eth f, s2)))))"

text \<open>
  The dictionary \<^verbatim>\<open>prices\<close> of \<^verbatim>\<open>check_and_execute_opportunity\<close>, in insertion order:
  assigning to a key that is present keeps its place.
\<close>

fun dict_set :: "(string \<times> pyfloat) list \<Rightarrow> string \<Rightarrow> pyfloat \<Rightarrow> (string \<times> pyfloat) list" where
  "dict_set [] k v = [(k, v)]"
| "dict_set ((k', v') # kvs) k v = (if k' = k then (k, v) # kvs else (k', v') # dict_set kvs k v)"

fun collect_prices ::
  "(string \<rightharpoonup> pyfloat) \<Rightarrow> string list \<Rightarrow> (string \<times> pyfloat) list \<Rightarrow> (string \<times> pyfloat) list" where
  "collect_prices cached [] prices = prices"
| "collect_prices cached (dex # ds) prices =
     (case cached dex of
        None \<Rightarrow> collect_prices cached ds prices
      | Some price \<Rightarrow>
          if ftruthy price then collect_prices cached ds (dict_set prices dex price)
          else collect_prices cached ds prices)"

text \<open>
  \<^verbatim>\<open>min(items, key=...)\<close> and \<^verbatim>\<open>max(items, key=...)\<close>: the running best is replaced only
  by a strictly smaller (greater) item, so the first of several equal extremes wins.
\<close>

fun min_by :: "string \<times> pyfloat \<Rightarrow> (string \<times> pyfloat) list \<Rightarrow> string \<times> pyfloat" where
  "min_by best [] = best"
| "min_by best (item # items) = min_by (if flt (snd item) (snd best) then item else best) items"

fun max_by :: "string \<times> pyfloat \<Rightarrow> (string \<times> pyfloat) list \<Rightarrow> string \<times> pyfloat" where
  "max_by best [] = best"
| "max_by best (item # items) = max_by (if flt (snd best) (snd item) then item else best) items"

text \<open>
  \<^verbatim>\<open>((max_price - min_price) / min_price) * 100\<close>; the \<^verbatim>\<open>int\<close> 100 converts to the
  float 100.0 exactly.
\<close>

definition price_diff_percent :: "pyfloat \<Rightarrow> pyfloat \<Rightarrow> py_error + pyfloat" where
  "price_diff_percent min_price max_price =
     (case fdiv (fsub max_price min_price) min_price of
        Inl e \<Rightarrow> Inl e
      | Inr r \<Rightarrow> Inr (fmul r (Finite 100)))"

text \<open>
  The first part of \<^verbatim>\<open>check_and_execute_opportunity\<close>, up to the spread: \<open>None\<close> where
  the method returns before computing it.
\<close>

definition find_spread ::
  "token \<Rightarrow> monitor \<Rightarrow> (py_error + (string \<times> pyfloat) \<times> (string \<times> pyfloat) \<times> pyfloat) option" where
  "find_spread tok s =
     (let token_addr = address tok;
          cached = (case price_cache s (lower token_addr) of None \<Rightarrow> Map.empty | Some m \<Rightarrow> m);
          prices = collect_prices cached (selected_dexes s) []
      in if length prices < 2 then None
         else
           (let lo = min_by (hd prices) (tl prices);
                hi = max_by (hd prices) (tl prices)
            in if fst lo = fst hi then None
               else (case price_diff_percent (snd lo) (snd hi) of
                       Inl e \<Rightarrow> Some (Inl e)
                     | Inr pct \<Rightarrow> Some (Inr (lo, hi, pct)))))"

text \<open>The band test \<^verbatim>\<open>0.8 < price_diff_percent < 50.0\<close>.\<close>

definition in_band :: "pyfloat \<Rightarrow> bool" where
  "in_band pct \<longleftrightarrow> flt (lit (8 / 10)) pct \<and> flt pct (lit 50)"

text \<open>
  The rest of the method, after the band test: sizes, profit, and the task that executes
  the opportunity. The log line of an opportunity looks both DEXes up by key.
\<close>

definition profit_check ::
  "chain \<Rightarrow> token \<Rightarrow> string \<Rightarrow> (string \<times> pyfloat) \<Rightarrow> (string \<times> pyfloat) \<Rightarrow> pyfloat \<Rightarrow> monitor
     \<Rightarrow> py_error option \<times> monitor" where
  "profit_check env tok stable_tok lo hi pct s =
     (let flash_loan_amount_usd = max_flash_loan_amount s
      in case stable_tokens s stable_tok of
           None \<Rightarrow> (Some (KeyError stable_tok), s)
         | Some stable_addr \<Rightarrow>
     (let (stable_decimals, s1) = get_token_decimals env stable_addr s;
          flash_loan_amount_wei = flash_loan_amount_usd * 10 ^ stable_decimals
      in case fdiv pct (Finite 100) of
           Inl e \<Rightarrow> (Some e, s1)
         | Inr fraction \<Rightarrow>
     (case int_to_float flash_loan_amount_usd of
           Inl e \<Rightarrow> (Some e, s1)
         | Inr notional \<Rightarrow>
     (let gross_profit_usd = fmul notional fraction;
          (gas_cost_usd, s2) = estimate_gas_cost env s1;
          net_profit_usd = fsub gross_profit_usd gas_cost_usd
      in if flt (of_pyint (min_profit_threshold s2)) net_profit_usd then
           (let opportunity =
                  \<lparr>token_address = address tok, token_symbol = symbol tok,
                   stable_token = stable_tok, amount = flash_loan_amount_wei,
                   buy_dex = fst lo, sell_dex = fst hi,
                   buy_price = snd lo, sell_price = snd hi,
                   expected_profit = gross_profit_usd, gas_cost = gas_cost_usd,
                   net_profit = net_profit_usd, timestamp = now env (length (rpc_log s2))\<rparr>
            in case dexes s2 (fst lo) of
                 None \<Rightarrow> (Some (KeyError (fst lo)), s2)
               | Some d1 \<Rightarrow>
                   (case dexes s2 (fst hi) of
                      None \<Rightarrow> (Some (KeyError (fst hi)), s2)
                    | Some d2 \<Rightarrow> (None, s2\<lparr>tasks := tasks s2 @ [(opportunity, Start)]\<rparr>)))
         else (None, s2)))))"

text \<open>
  \<^verbatim>\<open>ArbitrageMonitor.check_and_execute_opportunity\<close>: the result is the exception that
  leaves the method, if any, and the state.
\<close>

definition check_and_execute_opportunity ::
  "chain \<Rightarrow> token \<Rightarrow> string \<Rightarrow> monitor \<Rightarrow> py_error option \<times> monitor" where
  "check_and_execute_opportunity env tok stable_tok s =
     (case find_spread tok s of
        None \<Rightarrow> (None, s)
      | Some (Inl e) \<Rightarrow> (Some e, s)
      | Some (Inr (lo, hi, pct)) \<Rightarrow>
          if \<not> in_band pct then (None, s)
          else profit_check env tok stable_tok lo hi pct s)"

text \<open>The monitor with two selected DEXes and one token's cached prices on them.\<close>

definition priced_monitor :: "string \<Rightarrow> rat \<Rightarrow> string \<Rightarrow> rat \<Rightarrow> monitor" where
  "priced_monitor dex_a price_a dex_b price_b =
     (init_monitor ''0xme'')\<lparr>selected_dexes := [dex_a, dex_b],
        price_cache := [lower (address weth) \<mapsto> [dex_a \<mapsto> Finite price_a, dex_b \<mapsto> Finite price_b]]\<rparr>"

section \<open>Trade execution\<close>

text \<open>\<^verbatim>\<open>int(opportunity.net_profit * (10**6) * 0.9)\<close>; the \<^verbatim>\<open>int\<close> \<open>10\<^sup>6\<close> converts exactly.\<close>

definition min_profit :: "pyfloat \<Rightarrow> py_error + int" where
  "min_profit net = py_int (fmul (fmul net (Finite 1000000)) (lit (9 / 10)))"

text \<open>
  The tuple \<^verbatim>\<open>params_tuple\<close> of \<^verbatim>\<open>execute_arbitrage\<close>, or the exception that building it
  raises: an address without checksum form, an unknown key, a net profit that is no number.
\<close>

definition params_tuple :: "chain \<Rightarrow> monitor \<Rightarrow> ArbitrageOpportunity \<Rightarrow> py_error + arb_params" where
  "params_tuple env s opp =
     (case to_checksum_address env (token_address opp) of
        None \<Rightarrow> Inl ValueError
      | Some token_a \<Rightarrow>
     (case stable_tokens s (stable_token opp) of
        None \<Rightarrow> Inl (KeyError (stable_token opp))
      | Some stable_addr \<Rightarrow>
     (case to_checksum_address env stable_addr of
        None \<Rightarrow> Inl ValueError
      | Some token_b \<Rightarrow>
     (case dexes s (buy_dex opp) of
        None \<Rightarrow> Inl (KeyError (buy_dex opp))
      | Some low \<Rightarrow>
     (case to_checksum_address env (router_address low) of
        None \<Rightarrow> Inl ValueError
      | Some dex_low \<Rightarrow>
     (case dexes s (sell_dex opp) of
        None \<Rightarrow> Inl (KeyError (sell_dex opp))
      | Some high \<Rightarrow>
     (case to_checksum_address env (router_address high) of
        None \<Rightarrow> Inl ValueError
      | Some dex_high \<Rightarrow>
     (case min_profit (net_profit opp) of
        Inl e \<Rightarrow> Inl e
      | Inr mp \<Rightarrow>
          Inr (token_a, token_b, amount opp, dex_low, dex_high, account_address s, mp)))))))))"

text \<open>
  The \<^verbatim>\<open>try\<close> block of \<^verbatim>\<open>execute_arbitrage\<close> up to the receipt: the status of the
  receipt, or the exception raised on the way (a failed request; no receipt within 300
  seconds).
\<close>

definition submit_and_wait ::
  "chain \<Rightarrow> ArbitrageOpportunity \<Rightarrow> monitor \<Rightarrow> (py_error + int) \<times> monitor" where
  "submit_and_wait env opp s =
     (case params_tuple env s opp of
        Inl e \<Rightarrow> (Inl e, s)
      | Inr params \<Rightarrow>
     (let s1 = s\<lparr>rpc_log := rpc_log s @ [GetTransactionCount (account_address s)]\<rparr>
      in case get_transaction_count env (length (rpc_log s)) (account_address s) of
        None \<Rightarrow> (Inl (RpcError ''get_transaction_count''), s1)
      | Some nonce \<Rightarrow>
     (let s2 = s1\<lparr>rpc_log := rpc_log s1 @ [GetGasPrice]\<rparr>
      in case get_gas_price env (length (rpc_log s1)) of
        None \<Rightarrow> (Inl (RpcError ''get_gas_price''), s2)
      | Some gas_price \<Rightarrow>
     (let tx = (params, 800000, gas_price, nonce);
          s3 = s2\<lparr>rpc_log := rpc_log s2 @ [BuildTransaction tx]\<rparr>
      in if \<not> build_transaction env (length (rpc_log s2)) tx
         then (Inl (RpcError ''build_transaction''), s3)
         else
     (case sign_transaction env tx of
        None \<Rightarrow> (Inl ValueError, s3)
      | Some raw \<Rightarrow>
     (let s4 = s3\<lparr>rpc_log := rpc_log s3 @ [SendRawTransaction raw]\<rparr>
      in case send_raw_transaction env (length (rpc_log s3)) raw of
        None \<Rightarrow> (Inl (RpcError ''send_raw_transaction''), s4)
      | Some tx_hash \<Rightarrow>
     (let s5 = s4\<lparr>rpc_log := rpc_log s4 @ [WaitForTransactionReceipt tx_hash 300]\<rparr>
      in case wait_for_transaction_receipt env (length (rpc_log s4)) tx_hash 300 of
        None \<Rightarrow> (Inl TimeExhausted, s5)
      | Some status \<Rightarrow> (Inr status, s5))))))))"

text \<open>
  The whole \<^verbatim>\<open>try\<close> block with its \<^verbatim>\<open>except Exception\<close> handler. After a receipt the
  result is logged and the cooldown \<^verbatim>\<open>asyncio.sleep(60)\<close> follows, the last statement
  inside the \<^verbatim>\<open>try\<close>; the handler logs whatever was raised, so the block always ends
  normally.
\<close>

definition arbitrage_attempt :: "chain \<Rightarrow> ArbitrageOpportunity \<Rightarrow> monitor \<Rightarrow> monitor" where
  "arbitrage_attempt env opp s =
     (case submit_and_wait env opp s of
        (Inr status, s1) \<Rightarrow>
          s1\<lparr>trace := trace s1 @ [if status = 1 then LogSuccess else LogReverted status, Sleep 60]\<rparr>
      | (Inl e, s1) \<Rightarrow> s1\<lparr>trace := trace s1 @ [LogExecutionError]\<rparr>)"

text \<open>
  \<^verbatim>\<open>asyncio.Lock\<close>. \<^verbatim>\<open>acquire()\<close> takes a free lock at once when nobody waits; otherwise the
  caller joins the queue and is suspended until a \<^verbatim>\<open>release()\<close> wakes the head of the
  queue, which then takes the lock. Either way \<^verbatim>\<open>acquire()\<close> returns \<^verbatim>\<open>True\<close>, its only
  result. \<^verbatim>\<open>release()\<close> of a lock that is not held raises \<^verbatim>\<open>RuntimeError\<close>.
\<close>

definition acquire_result :: bool where
  "acquire_result = True"

definition lock_release :: "nat \<Rightarrow> monitor \<Rightarrow> py_error + monitor" where
  "lock_release i s =
     (if locked s then Inr (s\<lparr>locked := False, trace := trace s @ [LockReleased i]\<rparr>)
      else Inl RuntimeError)"

definition set_coro :: "nat \<Rightarrow> coro \<Rightarrow> monitor \<Rightarrow> monitor" where
  "set_coro i c s = s\<lparr>tasks := (tasks s)[i := (fst (tasks s ! i), c)]\<rparr>"

text \<open>
  The statement after \<^verbatim>\<open>acquire()\<close>:
  \<^verbatim>\<open>if not await self.trade_lock.acquire(): logger.warning(...); return\<close>.
\<close>

definition after_acquire :: "nat \<Rightarrow> monitor \<Rightarrow> monitor" where
  "after_acquire i s =
     (if \<not> acquire_result then set_coro i Returned (s\<lparr>trace := trace s @ [LogLockBusy]\<rparr>)
      else set_coro i Holding s)"

text \<open>
  \<^verbatim>\<open>ArbitrageMonitor.execute_arbitrage\<close>, run by task \<open>i\<close> up to its next stop: a new task
  asks for the lock; a suspended task goes on once the lock is free and it is the head
  of the queue, and cannot run before; a task that holds the lock runs the \<^verbatim>\<open>try\<close> block
  and then the \<^verbatim>\<open>finally\<close> block, which releases the lock.
\<close>

definition execute_arbitrage_step :: "chain \<Rightarrow> nat \<Rightarrow> monitor \<Rightarrow> monitor" where
  "execute_arbitrage_step env i s =
     (if length (tasks s) \<le> i then s
      else case snd (tasks s ! i) of
        Start \<Rightarrow>
          if \<not> locked s \<and> waiters s = [] then
            after_acquire i (s\<lparr>locked := True, trace := trace s @ [LockAcquired i]\<rparr>)
          else set_coro i Suspended (s\<lparr>waiters := waiters s @ [i]\<rparr>)
      | Suspended \<Rightarrow>
          if \<not> locked s \<and> waiters s \<noteq> [] \<and> hd (waiters s) = i then
            after_acquire i
              (s\<lparr>locked := True, waiters := tl (waiters s), trace := trace s @ [LockAcquired i]\<rparr>)
          else s
      | Holding \<Rightarrow>
          (let s1 = arbitrage_attempt env (fst (tasks s ! i)) s
           in case lock_release i s1 of
                Inl e \<Rightarrow> set_coro i (Raised e) s1
              | Inr s2 \<Rightarrow> set_coro i Returned s2)
      | Returned \<Rightarrow> s
      | Raised e \<Rightarrow> s)"

text \<open>The event loop runs the tasks in some order; a schedule names the task of each turn.\<close>

fun run_schedule :: "chain \<Rightarrow> nat list \<Rightarrow> monitor \<Rightarrow> monitor" where
  "run_schedule env [] s = s"
| "run_schedule env (i # sched) s = run_schedule env sched (execute_arbitrage_step env i s)"

text \<open>
  The lock and the tasks agree: the lock is held just when some task is inside the
  \<^verbatim>\<open>try\<close> block, only one task is, and the queue lists the suspended tasks, each once.
\<close>

definition lock_invariant :: "monitor \<Rightarrow> bool" where
  "lock_invariant s \<longleftrightarrow>
     (locked s \<longleftrightarrow> (\<exists>i < length (tasks s). snd (tasks s ! i) = Holding))
     \<and> (\<forall>i < length (tasks s). \<forall>j < length (tasks s).
           snd (tasks s ! i) = Holding \<longrightarrow> snd (tasks s ! j) = Holding \<longrightarrow> i = j)
     \<and> distinct (waiters s)
     \<and> (\<forall>i. i \<in> set (waiters s) \<longleftrightarrow> i < length (tasks s) \<and> snd (tasks s ! i) = Suspended)"

text \<open>
  While every task that returned has released the lock once, every task that holds it or
  returned has taken it once, and no task was left by an exception.
\<close>

definition release_invariant :: "monitor \<Rightarrow> bool" where
  "release_invariant s \<longleftrightarrow>
     (\<forall>i < length (tasks s).
        count_list (trace s) (LockReleased i) = (if snd (tasks s ! i) = Returned then 1 else 0)
        \<and> count_list (trace s) (LockAcquired i)
            = (if snd (tasks s ! i) = Holding \<or> snd (tasks s ! i) = Returned then 1 else 0)
        \<and> (\<forall>e. snd (tasks s ! i) \<noteq> Raised e))"

text \<open>What one run of the \<^verbatim>\<open>try\<close> block adds to the events, by outcome.\<close>

definition attempt_events :: "py_error + int \<Rightarrow> event list" where
  "attempt_events outcome =
     (case outcome of
        Inr status \<Rightarrow> [if status = 1 then LogSuccess else LogReverted status, Sleep 60]
      | Inl e \<Rightarrow> [LogExecutionError])"

text \<open>
  A node on which a trade goes through up to the receipt: nonce 7, gas price 1 gwei, and
  the given receipt status, or no receipt within the timeout.
\<close>

definition trading_chain :: "int option \<Rightarrow> chain" where
  "trading_chain receipt_status =
     (sample_chain 0)\<lparr>get_transaction_count := (\<lambda>n a. Some 7),
        get_gas_price := (\<lambda>n. Some 1000000000),
        build_transaction := (\<lambda>n tx. True),
        sign_transaction := (\<lambda>tx. Some ''0xf86b''),
        send_raw_transaction := (\<lambda>n raw. Some ''0x5c50''),
        wait_for_transaction_receipt := (\<lambda>n h timeout. receipt_status)\<rparr>"

text \<open>The opportunity of the example with prices 100.0 and 102.0, and a second one.\<close>

definition opp_weth :: ArbitrageOpportunity where
  "opp_weth =
     \<lparr>token_address = ''0x4200000000000000000000000000000000000006'', token_symbol = ''WETH'',
      stable_token = ''USDC'', amount = 5000000000,
      buy_dex = ''uniswap_v2'', sell_dex = ''pancake'',
      buy_price = Finite 100, sell_price = Finite 102,
      expected_profit = Finite 100, gas_cost = Finite 10,
      net_profit = Finite 90, timestamp = 2\<rparr>"

definition opp_dai :: ArbitrageOpportunity where
  "opp_dai =
     \<lparr>token_address = ''0x50c5725949A6F0c72E6C4a641F24049A917DB0Cb'', token_symbol = ''DAI'',
      stable_token = ''USDC'', amount = 5000000000,
      buy_dex = ''baseswap'', sell_dex = ''sushiswap_v2'',
      buy_price = Finite 1, sell_price = Finite (51 / 50),
      expected_profit = Finite 100, gas_cost = Finite 10,
      net_profit = Finite 90, timestamp = 3\<rparr>"

text \<open>The monitor with tasks created for the given opportunities, none of them run yet.\<close>

definition with_tasks :: "ArbitrageOpportunity list \<Rightarrow> monitor" where
  "with_tasks opps = (init_monitor ''0xme'')\<lparr>tasks := map (\<lambda>opp. (opp, Start)) opps\<rparr>"

section \<open>Swap event watcher\<close>

text \<open>\<^verbatim>\<open>sub in s\<close> on strings.\<close>

fun contains :: "string \<Rightarrow> string \<Rightarrow> bool" where
  "contains sub [] = (sub = [])"
| "contains sub (c # cs) = (take (length sub) (c # cs) = sub \<or> contains sub cs)"

text \<open>\<^verbatim>\<open>str(e)\<close> for the exceptions of the model; a failed request carries its message.\<close>

fun error_str :: "py_error \<Rightarrow> string" where
  "error_str (RpcError msg) = msg"
| "error_str (KeyError k) = [CHR 0x27] @ k @ [CHR 0x27]"
| "error_str ZeroDivisionError = ''float division by zero''"
| "error_str OverflowError = ''int too large to convert to float''"
| "error_str ValueError = ''cannot convert float NaN to integer''"
| "error_str IndexError = ''list index out of range''"
| "error_str RuntimeError = ''Lock is not acquired.''"
| "error_str TimeExhausted = ''Transaction is not in the chain after 300 seconds''"

text \<open>
  \<^verbatim>\<open>ArbitrageMonitor.get_pair_address\<close>: the pool of the factory, \<open>None\<close> for the zero
  address and for any failure.
\<close>

definition get_pair_address ::
  "chain \<Rightarrow> string \<Rightarrow> string \<Rightarrow> string \<Rightarrow> monitor \<Rightarrow> string option \<times> monitor" where
  "get_pair_address env token_a token_b dex_key s =
     (case dexes s dex_key of
        None \<Rightarrow> (None, s)
      | Some dex \<Rightarrow>
     (case to_checksum_address env (factory_address dex) of
        None \<Rightarrow> (None, s)
      | Some factory_addr \<Rightarrow>
     (case to_checksum_address env token_a of
        None \<Rightarrow> (None, s)
      | Some token_a_checksum \<Rightarrow>
     (case to_checksum_address env token_b of
        None \<Rightarrow> (None, s)
      | Some token_b_checksum \<Rightarrow>
     (let s1 = s\<lparr>rpc_log := rpc_log s @ [GetPair factory_addr token_a_checksum token_b_checksum]\<rparr>
      in case getPair_call env (length (rpc_log s)) factory_addr token_a_checksum token_b_checksum of
           None \<Rightarrow> (None, s1)
         | Some pair_addr \<Rightarrow>
             if pair_addr = ''0x0000000000000000000000000000000000000000'' then (None, s1)
             else (Some pair_addr, s1))))))"

text \<open>
  The local state of one \<^verbatim>\<open>subscribe_to_swap\<close> coroutine: its arguments, the pool, the
  counter \<^verbatim>\<open>consecutive_errors\<close>, and where it stands: at the head of the outer loop
  (a filter is to be made), at the head of the inner loop with its filter, or returned.
\<close>

datatype watch_pc = FilterNeeded | Polling nat | Stopped

record watcher =
  w_token :: token
  w_stable_token :: string
  w_dex_key :: string
  pair_address :: string
  consecutive_errors :: nat
  pc :: watch_pc

text \<open>
  The start of \<^verbatim>\<open>subscribe_to_swap\<close>: without a pool the coroutine returns at once; a
  stable asset that is not configured raises.
\<close>

definition subscribe_to_swap_start ::
  "chain \<Rightarrow> token \<Rightarrow> string \<Rightarrow> string \<Rightarrow> monitor \<Rightarrow> (py_error + watcher) \<times> monitor" where
  "subscribe_to_swap_start env tok stable_tok dex_key s =
     (case stable_tokens s stable_tok of
        None \<Rightarrow> (Inl (KeyError stable_tok), s)
      | Some stable_addr \<Rightarrow>
          (let (pair, s1) = get_pair_address env (address tok) stable_addr dex_key s;
               w = \<lparr>w_token = tok, w_stable_token = stable_tok, w_dex_key = dex_key,
                    pair_address = (case pair of None \<Rightarrow> [] | Some a \<Rightarrow> a),
                    consecutive_errors = 0,
                    pc = (case pair of None \<Rightarrow> Stopped | Some a \<Rightarrow> FilterNeeded)\<rparr>
           in (Inr w, s1)))"

text \<open>
  The body of \<^verbatim>\<open>for event in entries\<close>: a price update and an evaluation per entry, up to
  the first exception.
\<close>

fun process_entries ::
  "chain \<Rightarrow> nat \<Rightarrow> token \<Rightarrow> string \<Rightarrow> string \<Rightarrow> monitor \<Rightarrow> py_error option \<times> monitor" where
  "process_entries env 0 tok stable_tok dex_key s = (None, s)"
| "process_entries env (Suc n) tok stable_tok dex_key s =
     (let (price, s1) = update_price_for_dex env tok stable_tok dex_key s;
          (raised, s2) = check_and_execute_opportunity env tok stable_tok s1
      in case raised of
           Some e \<Rightarrow> (Some e, s2)
         | None \<Rightarrow> process_entries env n tok stable_tok dex_key s2)"

text \<open>
  The handler \<^verbatim>\<open>except Exception as e\<close> of the outer loop: it counts every exception,
  chooses the log line by the message, sleeps \<^verbatim>\<open>min(5 * consecutive_errors, 60)\<close> seconds
  and goes back to the head of the outer loop, where a new filter is made.
\<close>

definition on_subscription_error :: "string \<Rightarrow> watcher \<Rightarrow> monitor \<Rightarrow> watcher \<times> monitor" where
  "on_subscription_error msg w s =
     (let errors = consecutive_errors w + 1;
          line = (if contains ''filter not found'' (lower msg) then LogFilterExpired
                  else LogSubscriptionError);
          sleep_time = min (5 * errors) 60;
          unstable = (if 1 < errors then [LogUnstable sleep_time] else [])
      in (w\<lparr>consecutive_errors := errors, pc := FilterNeeded\<rparr>,
          s\<lparr>trace := trace s @ [line] @ unstable @ [Sleep sleep_time]\<rparr>))"

text \<open>
  One turn of a loop of \<^verbatim>\<open>subscribe_to_swap\<close>: at the head of the outer loop the flag is
  tested and the filter made; at the head of the inner loop the flag is tested, the
  filter polled, the counter reset after a poll that succeeded, the entries processed,
  and two seconds slept.
\<close>

definition watcher_step :: "chain \<Rightarrow> watcher \<Rightarrow> monitor \<Rightarrow> watcher \<times> monitor" where
  "watcher_step env w s =
     (case pc w of
        Stopped \<Rightarrow> (w, s)
      | FilterNeeded \<Rightarrow>
          if \<not> is_monitoring s then (w\<lparr>pc := Stopped\<rparr>, s)
          else
            (let s1 = s\<lparr>rpc_log := rpc_log s @ [NewFilter (pair_address w)]\<rparr>
             in case new_filter env (length (rpc_log s)) (pair_address w) of
                  Inl msg \<Rightarrow> on_subscription_error msg w s1
                | Inr event_filter \<Rightarrow> (w\<lparr>pc := Polling event_filter\<rparr>, s1))
      | Polling event_filter \<Rightarrow>
          if \<not> is_monitoring s then (w\<lparr>pc := FilterNeeded\<rparr>, s)
          else
            (let s1 = s\<lparr>rpc_log := rpc_log s @ [GetNewEntries event_filter]\<rparr>
             in case get_new_entries env (length (rpc_log s)) event_filter of
                  Inl msg \<Rightarrow> on_subscription_error msg w s1
                | Inr entries \<Rightarrow>
                    (let w1 = w\<lparr>consecutive_errors := 0\<rparr>
                     in case process_entries env entries (w_token w) (w_stable_token w) (w_dex_key w) s1 of
                          (Some e, s2) \<Rightarrow> on_subscription_error (error_str e) w1 s2
                        | (None, s2) \<Rightarrow> (w1, s2\<lparr>trace := trace s2 @ [Sleep 2]\<rparr>))))"

text \<open>A number of turns of one watcher.\<close>

fun watcher_run :: "chain \<Rightarrow> nat \<Rightarrow> watcher \<Rightarrow> monitor \<Rightarrow> watcher \<times> monitor" where
  "watcher_run env 0 w s = (w, s)"
| "watcher_run env (Suc n) w s = (let (w1, s1) = watcher_step env w s in watcher_run env n w1 s1)"

text \<open>
  A node whose first request fails with an expired filter and whose later polls report
  one new entry each; and a watcher of the WETH pool on PancakeSwap that is polling.
\<close>

definition expiring_chain :: chain where
  "expiring_chain =
     (sample_chain 2000000000)\<lparr>get_new_entries :=
        (\<lambda>n f. if n = 0 then Inl ''Filter not found'' else Inr 1)\<rparr>"

definition weth_watcher :: watcher where
  "weth_watcher =
     \<lparr>w_token = weth, w_stable_token = ''USDC'', w_dex_key = ''pancake'',
      pair_address = ''0x72AB388E2E2F6FaceF59E3C3FA2C4E29011c2D38'',
      consecutive_errors = 0, pc = Polling 0\<rparr>"

definition monitoring :: monitor where
  "monitoring = (init_monitor ''0xme'')\<lparr>selected_dexes := [''uniswap_v2'', ''pancake''],
     is_monitoring := True\<rparr>"

text \<open>
  The checksum form (EIP-55) of the addresses of the constructor and of the examples,
  each listed under its lower-case spelling. The library accepts an address in any
  spelling of its letters and refuses every other string; the table stands for it on
  these addresses.
\<close>

definition known_addresses :: "(string \<times> string) list" where
  "known_addresses =
     [(''0x4752ba5dbc23f44d87826276bf6fd6b1c372ad24'', ''0x4752ba5DBc23f44D87826276BF6Fd6b1C372aD24''),
      (''0x8909dc15e40173ff4699343b6eb8132c65e18ec6'', ''0x8909Dc15e40173Ff4699343b6eB8132c65e18eC6''),
      (''0x8cfe327cec66d1c090dd72bd0ff11d690c33a2eb'', ''0x8cFe327CEc66d1C090Dd72bd0FF11d690C33a2Eb''),
      (''0x02a84c1b3bbd7401a5f7fa98a384ebc70bb5749e'', ''0x02a84c1b3BBD7401a5f7fa98a384EBC70bB5749E''),
      (''0x327df1e6de05895d2ab08513aadd9313fe505d86'', ''0x327Df1E6de05895d2ab08513aaDD9313Fe505d86''),
      (''0xfda619b6d20975be80a10332cd39b9a4b0faa8bb'', ''0xFDa619b6d20975be80A10332cD39b9a4b0FAa8BB''),
      (''0x6bded42c6da8fbf0d2ba55b2fa120c5e0c8d7891'', ''0x6BDED42c6DA8FBf0d2bA55B2fa120C5e0c8D7891''),
      (''0x71524b4f93c58fcbf659783284e38825f0622859'', ''0x71524B4f93c58fcbF659783284E38825f0622859''),
      (''0x833589fcd6edb6e08f4c7c32d4f71b54bda02913'', ''0x833589fCD6eDb6E08f4c7C32D4f71b54bdA02913''),
      (''0x4200000000000000000000000000000000000006'', ''0x4200000000000000000000000000000000000006''),
      (''0x50c5725949a6f0c72e6c4a641f24049a917db0cb'', ''0x50c5725949A6F0c72E6C4a641F24049A917DB0Cb'')]"

definition checksum_table :: "string \<Rightarrow> string option" where
  "checksum_table a = map_of known_addresses (lower a)"

text \<open>
  A node of the Base network for the examples: addresses are checked, the stable asset
  has 6 decimals and every other token 18, and the routers quote the given amount of
  stable units for one token. \<open>late_decimals\<close> is the same node with a \<^verbatim>\<open>decimals()\<close> call
  that fails on the first request only; on \<open>one_revert\<close> the router rejects the third
  request only.
\<close>

definition base_chain :: "int \<Rightarrow> chain" where
  "base_chain quote = (sample_chain quote)\<lparr>to_checksum_address := checksum_table\<rparr>"

definition late_decimals :: "int \<Rightarrow> chain" where
  "late_decimals quote =
     (base_chain quote)\<lparr>decimals_call :=
        (\<lambda>n a. if n = 0 then None
               else if a = ''0x833589fCD6eDb6E08f4c7C32D4f71b54bdA02913'' then Some 6 else Some 18)\<rparr>"

definition one_revert :: "int \<Rightarrow> chain" where
  "one_revert quote =
     (base_chain quote)\<lparr>getAmountsOut_call :=
        (\<lambda>n r amount_in path. if n = 2 then None else Some [amount_in, quote])\<rparr>"

text \<open>
  A series of decimals lookups, for any addresses: the answer of each, and the number of
  requests it sent to the node.
\<close>

fun decimals_lookups :: "chain \<Rightarrow> string list \<Rightarrow> monitor \<Rightarrow> (nat \<times> nat) list \<times> monitor" where
  "decimals_lookups env [] s = ([], s)"
| "decimals_lookups env (a # addrs) s =
     (let (d, s1) = get_token_decimals env a s;
          (answers, s2) = decimals_lookups env addrs s1
      in ((d, length (rpc_log s1) - length (rpc_log s)) # answers, s2))"

text \<open>
  The state after the evaluator met prices 100.0 and 102.0 on a node whose first
  \<^verbatim>\<open>decimals()\<close> call failed; and a Base node on which a trade goes through, with the
  state after the evaluator met the same prices there.
\<close>

definition after_failed_lookup :: monitor where
  "after_failed_lookup =
     snd (check_and_execute_opportunity (late_decimals 0) weth ''USDC''
       (priced_monitor ''uniswap_v2'' 100 ''pancake'' 102))"

definition base_trading :: chain where
  "base_trading = (trading_chain (Some 1))\<lparr>to_checksum_address := checksum_table\<rparr>"

definition after_evaluation :: monitor where
  "after_evaluation =
     snd (check_and_execute_opportunity base_trading weth ''USDC''
       (priced_monitor ''uniswap_v2'' 100 ''pancake'' 102))"

section \<open>Quoting and caching: proofs\<close>

lemma fround_1e12: "fround 1000000000000 = Finite 1000000000000"
  by code_simp

lemma price_sane_iff: "price_sane p \<longleftrightarrow> (\<exists>x. p = Finite x \<and> 0 < x \<and> x < 10 ^ 12)"
  by (cases p) (simp_all add: price_sane_def of_pyint_def fround_1e12)


lemma get_token_decimals_price_cache:
  "get_token_decimals env a s = (d, s') \<Longrightarrow> price_cache s' = price_cache s"
  by (auto simp: get_token_decimals_def Let_def split: option.splits)

lemma get_token_price_Some:
  assumes "fst (get_token_price env t st d s) = Some q"
  shows "price_sane q \<and> (\<exists>amounts dec. normalized_price amounts dec = Inr q)"
  using assms
  by (auto simp: get_token_price_def Let_def
      split: option.splits prod.splits sum.splits if_splits)


lemma get_token_price_cache:
  "price_cache (snd (get_token_price env t st d s)) = price_cache s"
  by (auto simp: get_token_price_def Let_def
      split: option.splits prod.splits sum.splits if_splits
      dest!: get_token_decimals_price_cache)

lemma update_price_cache_valid:
  "cache_valid s \<Longrightarrow> cache_valid (snd (update_price_for_dex env tok st d s))"
proof -
  assume v: "cache_valid s"
  obtain r s1 where g: "get_token_price env (address tok) st d s = (r, s1)"
    by (cases "get_token_price env (address tok) st d s")
  have pc: "price_cache s1 = price_cache s"
    using get_token_price_cache[of env "address tok" st d s] g by simp
  show ?thesis
  proof (cases r)
    case None
    then show ?thesis using v g pc by (simp add: update_price_for_dex_def cache_valid_def)
  next
    case (Some price)
    then have "price_sane price"
      using get_token_price_Some[of env "address tok" st d s price] g by simp
    then show ?thesis using v g pc Some
      by (auto simp: update_price_for_dex_def cache_valid_def Let_def split: option.splits if_splits)
  qed
qed

lemma update_price_none_unchanged:
  "fst (get_token_price env (address tok) st d s) = None \<Longrightarrow>
   fst (update_price_for_dex env tok st d s) = None \<and>
   price_cache (snd (update_price_for_dex env tok st d s)) = price_cache s"
  using get_token_price_cache[of env "address tok" st d s]
  by (auto simp: update_price_for_dex_def split: prod.splits option.splits)

lemma update_price_keeps_entries:
  assumes "price_cache s k = Some m" "m x = Some p"
  shows "\<exists>m' p'. price_cache (snd (update_price_for_dex env tok st d s)) k = Some m' \<and> m' x = Some p'"
  using assms get_token_price_cache[of env "address tok" st d s]
  by (auto simp: update_price_for_dex_def Let_def split: prod.splits option.splits)

lemma run_updates_valid: "cache_valid s \<Longrightarrow> cache_valid (run_updates env us s)"
  by (induction us arbitrary: s) (auto simp: update_price_cache_valid)

lemma init_cache_valid: "cache_valid (init_monitor acct)"
  by (simp add: cache_valid_def init_monitor_def)







text \<open>
  Claim C10. Only \<open>update_price_for_dex\<close> writes the price cache. An update keeps the cache
  valid; an update whose quote is \<open>None\<close> returns \<open>None\<close> and leaves the cache as it was;
  an entry that is present stays present (updated or not); and after any sequence of
  updates from the constructor's empty cache every stored price is a finite number
  strictly between 0 and \<open>10\<^sup>1\<^sup>2\<close>.
\<close>

theorem price_cache_invariant:
  "(cache_valid s \<longrightarrow> cache_valid (snd (update_price_for_dex env tok st d s)))
   \<and> (fst (get_token_price env (address tok) st d s) = None \<longrightarrow>
        fst (update_price_for_dex env tok st d s) = None
        \<and> price_cache (snd (update_price_for_dex env tok st d s)) = price_cache s)
   \<and> (\<forall>k m x p. price_cache s k = Some m \<longrightarrow> m x = Some p \<longrightarrow>
        (\<exists>m' p'. price_cache (snd (update_price_for_dex env tok st d s)) k = Some m' \<and> m' x = Some p'))
   \<and> (\<forall>k m x p. price_cache (run_updates env us (init_monitor acct)) k = Some m \<longrightarrow> m x = Some p \<longrightarrow>
        (\<exists>a. p = Finite a \<and> 0 < a \<and> a < 10 ^ 12))"
proof (intro conjI)
  show "cache_valid s \<longrightarrow> cache_valid (snd (update_price_for_dex env tok st d s))"
    by (simp add: update_price_cache_valid)
  show "fst (get_token_price env (address tok) st d s) = None \<longrightarrow>
        fst (update_price_for_dex env tok st d s) = None
        \<and> price_cache (snd (update_price_for_dex env tok st d s)) = price_cache s"
    using update_price_none_unchanged by blast
  show "\<forall>k m x p. price_cache s k = Some m \<longrightarrow> m x = Some p \<longrightarrow>
        (\<exists>m' p'. price_cache (snd (update_price_for_dex env tok st d s)) k = Some m' \<and> m' x = Some p')"
    using update_price_keeps_entries by blast
  have "cache_valid (run_updates env us (init_monitor acct))"
    by (rule run_updates_valid[OF init_cache_valid])
  then show "\<forall>k m x p. price_cache (run_updates env us (init_monitor acct)) k = Some m \<longrightarrow> m x = Some p \<longrightarrow>
        (\<exists>a. p = Finite a \<and> 0 < a \<and> a < 10 ^ 12)"
    unfolding cache_valid_def price_sane_iff by blast
qed


theorem price_cache_invariant_witness:
  "cache_valid (snd (update_price_for_dex (sample_chain (2000 * 10 ^ 6)) weth ''USDC'' ''pancake'' (init_monitor ''0xme'')))
   \<and> price_cache (snd (update_price_for_dex dead_chain weth ''USDC'' ''pancake'' (init_monitor ''0xme'')))
       = price_cache (init_monitor ''0xme'')
   \<and> (\<exists>m' p'. price_cache (snd (update_price_for_dex dead_chain weth ''USDC'' ''baseswap''
          (run_updates (flaky_chain (2000 * 10 ^ 6)) [(weth, ''USDC'', ''pancake'')] (init_monitor ''0xme''))))
          (lower (address weth)) = Some m' \<and> m' ''pancake'' = Some p')
   \<and> (\<exists>a. Finite 2000 = Finite a \<and> 0 < a \<and> a < (10::rat) ^ 12)"
proof -
  let ?s0 = "init_monitor ''0xme''"
  let ?k = "lower (address weth)"
  let ?one = "run_updates (flaky_chain (2000 * 10 ^ 6)) [(weth, ''USDC'', ''pancake'')] ?s0"
  let ?two = "run_updates (flaky_chain (2000 * 10 ^ 6))
      [(weth, ''USDC'', ''pancake''), (weth, ''USDC'', ''baseswap'')] ?s0"
  have v0: "cache_valid ?s0" by (rule init_cache_valid)
  have A: "cache_valid (snd (update_price_for_dex (sample_chain (2000 * 10 ^ 6)) weth ''USDC'' ''pancake'' ?s0))"
    using price_cache_invariant[of ?s0 "sample_chain (2000 * 10 ^ 6)" weth "''USDC''" "''pancake''"] v0
    by blast
  have n: "fst (get_token_price dead_chain (address weth) ''USDC'' ''pancake'' ?s0) = None"
    by code_simp
  have B: "price_cache (snd (update_price_for_dex dead_chain weth ''USDC'' ''pancake'' ?s0)) = price_cache ?s0"
    using price_cache_invariant[of ?s0 dead_chain weth "''USDC''" "''pancake''"] n
    by blast
  have e1: "(case price_cache ?one ?k of None \<Rightarrow> None | Some m \<Rightarrow> m ''pancake'') = Some (Finite 2000)"
    by code_simp
  then obtain m1 where m1: "price_cache ?one ?k = Some m1" "m1 ''pancake'' = Some (Finite 2000)"
    by (auto split: option.splits)
  have C: "\<exists>m' p'. price_cache (snd (update_price_for_dex dead_chain weth ''USDC'' ''baseswap'' ?one)) ?k = Some m'
      \<and> m' ''pancake'' = Some p'"
    using price_cache_invariant[of ?one dead_chain weth "''USDC''" "''baseswap''"] m1
    by blast
  have e2: "(case price_cache ?two ?k of None \<Rightarrow> None | Some m \<Rightarrow> m ''pancake'') = Some (Finite 2000)"
    by code_simp
  then obtain m2 where m2: "price_cache ?two ?k = Some m2" "m2 ''pancake'' = Some (Finite 2000)"
    by (auto split: option.splits)
  have D: "\<exists>a. Finite 2000 = Finite a \<and> 0 < a \<and> a < (10::rat) ^ 12"
    using price_cache_invariant[of ?s0 "flaky_chain (2000 * 10 ^ 6)" weth "''USDC''" "''pancake''"
        "[(weth, ''USDC'', ''pancake''), (weth, ''USDC'', ''baseswap'')]" "''0xme''"] m2
    by blast
  show ?thesis using A B C D by blast
qed

section \<open>Spread evaluation: proofs\<close>

lemma fround_10: "fround 10 = Finite 10" by code_simp
lemma fround_50: "fround 50 = Finite 50" by code_simp
lemma fround_08: "fround (4 / 5) = Finite (3602879701896397 / 4503599627370496)" by code_simp

lemma in_band_iff:
  "in_band pct \<longleftrightarrow> (\<exists>x. pct = Finite x \<and> 3602879701896397 / 4503599627370496 < x \<and> x < 50)"
  by (cases pct) (simp_all add: in_band_def fround_08 fround_50)

lemma get_token_decimals_frame:
  assumes "get_token_decimals env a s = (d, s')"
  shows "dexes s' = dexes s \<and> stable_tokens s' = stable_tokens s \<and> tasks s' = tasks s
    \<and> min_profit_threshold s' = min_profit_threshold s
    \<and> max_flash_loan_amount s' = max_flash_loan_amount s \<and> price_cache s' = price_cache s
    \<and> selected_dexes s' = selected_dexes s"
  using assms by (auto simp: get_token_decimals_def Let_def split: option.splits)

lemma estimate_gas_cost_frame:
  assumes "estimate_gas_cost env s = (g, s')"
  shows "dexes s' = dexes s \<and> stable_tokens s' = stable_tokens s \<and> tasks s' = tasks s
    \<and> min_profit_threshold s' = min_profit_threshold s
    \<and> max_flash_loan_amount s' = max_flash_loan_amount s \<and> price_cache s' = price_cache s
    \<and> selected_dexes s' = selected_dexes s \<and> decimals_cache s' = decimals_cache s"
  using assms
  by (auto simp: estimate_gas_cost_def Let_def split: option.splits if_splits pynum.splits sum.splits)

lemma spread_100_102: "price_diff_percent (Finite 100) (Finite 102) = Inr (Finite 2)"
  by code_simp

lemma profit_100_102:
  "fdiv (Finite 2) (Finite 100) = Inr (Finite (5764607523034235 / 288230376151711744))"
  "int_to_float 5000 = Inr (Finite 5000)"
  "fmul (Finite 5000) (Finite (5764607523034235 / 288230376151711744)) = Finite 100"
  "fsub (Finite 100) (Finite 10) = Finite 90"
  by code_simp+

lemma find_spread_100_102:
  assumes "dex_a \<noteq> dex_b"
    and "selected_dexes s = [dex_a, dex_b] \<or> selected_dexes s = [dex_b, dex_a]"
    and "price_cache s (lower (address tok)) = Some m"
    and "m dex_a = Some (Finite 100)" and "m dex_b = Some (Finite 102)"
  shows "find_spread tok s = Some (Inr ((dex_a, Finite 100), (dex_b, Finite 102), Finite 2))"
  using assms by (auto simp: find_spread_def spread_100_102)

text \<open>
  Claim C3. For a token whose cached prices on the two selected DEXes are 100.0 on
  \<open>dex_a\<close> and 102.0 on \<open>dex_b\<close> (in either order of selection), the spread is 2.0; with
  threshold 10, notional 5000 and a gas cost of 10.0 the evaluator computes a gross profit
  of 100.0 and a net profit of 90.0 and hands over an opportunity that buys on \<open>dex_a\<close>
  and sells on \<open>dex_b\<close>. All numbers are binary64 results.
\<close>

theorem spread_example:
  assumes "dex_a \<noteq> dex_b"
    and "selected_dexes s = [dex_a, dex_b] \<or> selected_dexes s = [dex_b, dex_a]"
    and "price_cache s (lower (address tok)) = Some m"
    and "m dex_a = Some (Finite 100)" and "m dex_b = Some (Finite 102)"
    and "dexes s dex_a = Some da" and "dexes s dex_b = Some db"
    and "stable_tokens s st = Some sa"
    and "min_profit_threshold s = 10" and "max_flash_loan_amount s = 5000"
    and "\<forall>s'. fst (estimate_gas_cost env s') = Finite 10"
  shows "price_diff_percent (Finite 100) (Finite 102) = Inr (Finite 2)
    \<and> find_spread tok s = Some (Inr ((dex_a, Finite 100), (dex_b, Finite 102), Finite 2))
    \<and> (\<exists>opp s'. check_and_execute_opportunity env tok st s = (None, s')
          \<and> tasks s' = tasks s @ [(opp, Start)]
          \<and> buy_dex opp = dex_a \<and> sell_dex opp = dex_b
          \<and> buy_price opp = Finite 100 \<and> sell_price opp = Finite 102
          \<and> expected_profit opp = Finite 100 \<and> gas_cost opp = Finite 10
          \<and> net_profit opp = Finite 90)"
proof -
  have fs: "find_spread tok s = Some (Inr ((dex_a, Finite 100), (dex_b, Finite 102), Finite 2))"
    using assms(1-5) by (rule find_spread_100_102)
  have band: "in_band (Finite 2)"
    by (simp add: in_band_iff)
  obtain dec s1 where d: "get_token_decimals env sa s = (dec, s1)"
    by (cases "get_token_decimals env sa s")
  obtain g s2 where e: "estimate_gas_cost env s1 = (g, s2)"
    by (cases "estimate_gas_cost env s1")
  have g: "g = Finite 10"
    using assms(11) e by (metis fst_conv)
  note f1 = get_token_decimals_frame[OF d]
  note f2 = estimate_gas_cost_frame[OF e]
  have thr: "min_profit_threshold s2 = 10" using f1 f2 assms(9) by simp
  have dx: "dexes s2 dex_a = Some da" "dexes s2 dex_b = Some db"
    using f1 f2 assms(6,7) by simp_all
  have sp: "tasks s2 = tasks s" using f1 f2 by simp
  define opp where "opp =
     \<lparr>token_address = address tok, token_symbol = symbol tok,
      stable_token = st, amount = 5000 * 10 ^ dec,
      buy_dex = dex_a, sell_dex = dex_b,
      buy_price = Finite 100, sell_price = Finite 102,
      expected_profit = Finite 100, gas_cost = Finite 10,
      net_profit = Finite 90, timestamp = now env (length (rpc_log s2))\<rparr>"
  have pc: "profit_check env tok st (dex_a, Finite 100) (dex_b, Finite 102) (Finite 2) s
      = (None, s2\<lparr>tasks := tasks s2 @ [(opp, Start)]\<rparr>)"
    using assms(8,10) d e g thr dx
    by (simp add: profit_check_def profit_100_102 of_pyint_def opp_def Let_def del: fmul.simps)
  have "check_and_execute_opportunity env tok st s = (None, s2\<lparr>tasks := tasks s2 @ [(opp, Start)]\<rparr>)"
    using fs band pc by (simp add: check_and_execute_opportunity_def)
  moreover have "tasks (s2\<lparr>tasks := tasks s2 @ [(opp, Start)]\<rparr>) = tasks s @ [(opp, Start)]"
    using sp by simp
  moreover have "buy_dex opp = dex_a \<and> sell_dex opp = dex_b
          \<and> buy_price opp = Finite 100 \<and> sell_price opp = Finite 102
          \<and> expected_profit opp = Finite 100 \<and> gas_cost opp = Finite 10
          \<and> net_profit opp = Finite 90"
    by (simp add: opp_def)
  ultimately show ?thesis using fs spread_100_102 by blast
qed

theorem spread_example_witness:
  "\<exists>opp s'. check_and_execute_opportunity (sample_chain 0) weth ''USDC''
        (priced_monitor ''uniswap_v2'' 100 ''pancake'' 102) = (None, s')
     \<and> tasks s' = tasks (priced_monitor ''uniswap_v2'' 100 ''pancake'' 102) @ [(opp, Start)]
     \<and> buy_dex opp = ''uniswap_v2'' \<and> sell_dex opp = ''pancake''
     \<and> buy_price opp = Finite 100 \<and> sell_price opp = Finite 102
     \<and> expected_profit opp = Finite 100 \<and> gas_cost opp = Finite 10
     \<and> net_profit opp = Finite 90"
proof -
  let ?s = "priced_monitor ''uniswap_v2'' 100 ''pancake'' 102"
  let ?m = "[''uniswap_v2'' \<mapsto> Finite 100, ''pancake'' \<mapsto> Finite 102]"
  have 1: "''uniswap_v2'' \<noteq> ''pancake''" by simp
  have 2: "selected_dexes ?s = [''uniswap_v2'', ''pancake''] \<or> selected_dexes ?s = [''pancake'', ''uniswap_v2'']"
    by (simp add: priced_monitor_def)
  have 3: "price_cache ?s (lower (address weth)) = Some ?m"
    by (simp add: priced_monitor_def)
  have 4: "?m ''uniswap_v2'' = Some (Finite 100)" by simp
  have 5: "?m ''pancake'' = Some (Finite 102)" by simp
  have 6: "dexes ?s ''uniswap_v2'' = Some \<lparr>name = ''Uniswap V2 (Base)'',
            router_address = ''0x4752ba5dbc23f44d87826276bf6fd6b1c372ad24'',
            factory_address = ''0x8909dc15e40173ff4699343b6eb8132c65e18ec6''\<rparr>"
    by (simp add: priced_monitor_def init_monitor_def)
  have 7: "dexes ?s ''pancake'' = Some \<lparr>name = ''PancakeSwap V2'',
            router_address = ''0x8cFe327CEc66d1C090Dd72bd0FF11d690C33a2Eb'',
            factory_address = ''0x02a84c1b3BBD7401a5f7fa98a384EBC70bB5749E''\<rparr>"
    by (simp add: priced_monitor_def init_monitor_def)
  have 8: "stable_tokens ?s ''USDC'' = Some ''0x833589fCD6eDb6E08f4c7C32D4f71b54bdA02913''"
    by (simp add: priced_monitor_def init_monitor_def)
  have 9: "min_profit_threshold ?s = 10" by (simp add: priced_monitor_def init_monitor_def)
  have 10: "max_flash_loan_amount ?s = 5000" by (simp add: priced_monitor_def init_monitor_def)
  have 11: "\<forall>s'. fst (estimate_gas_cost (sample_chain 0) s') = Finite 10"
    by (simp add: estimate_gas_cost_def sample_chain_def fround_10)
  from spread_example[OF 1 2 3 4 5 6 7 8 9 10 11] show ?thesis by blast
qed

text \<open>
  Claim C4. The band test is strict at both ends: the floats 0.8 and 50.0 fail it, 0.81
  and 49.9 pass it. For every token and every cache, a computed spread outside the band
  makes the evaluator return with nothing changed, and a spread inside it leads to the
  profit check.
\<close>

theorem spread_band_strict:
  "\<not> in_band (lit (8 / 10)) \<and> in_band (lit (81 / 100))
   \<and> \<not> in_band (lit 50) \<and> in_band (lit (499 / 10))
   \<and> (\<forall>lo hi pct. find_spread tok s = Some (Inr (lo, hi, pct)) \<longrightarrow>
         (\<not> in_band pct \<longrightarrow> check_and_execute_opportunity env tok st s = (None, s))
       \<and> (in_band pct \<longrightarrow>
            check_and_execute_opportunity env tok st s = profit_check env tok st lo hi pct s))"
proof (intro conjI)
  show "\<not> in_band (lit (8 / 10))" by code_simp
  show "in_band (lit (81 / 100))" by code_simp
  show "\<not> in_band (lit 50)" by code_simp
  show "in_band (lit (499 / 10))" by code_simp
  show "\<forall>lo hi pct. find_spread tok s = Some (Inr (lo, hi, pct)) \<longrightarrow>
         (\<not> in_band pct \<longrightarrow> check_and_execute_opportunity env tok st s = (None, s))
       \<and> (in_band pct \<longrightarrow>
            check_and_execute_opportunity env tok st s = profit_check env tok st lo hi pct s)"
    by (simp add: check_and_execute_opportunity_def)
qed

theorem spread_band_strict_witness:
  "check_and_execute_opportunity (sample_chain 0) weth ''USDC''
      (priced_monitor ''uniswap_v2'' 1000 ''pancake'' 1008)
     = (None, priced_monitor ''uniswap_v2'' 1000 ''pancake'' 1008)
   \<and> check_and_execute_opportunity (sample_chain 0) weth ''USDC''
      (priced_monitor ''uniswap_v2'' 2 ''pancake'' 3)
     = (None, priced_monitor ''uniswap_v2'' 2 ''pancake'' 3)
   \<and> check_and_execute_opportunity (sample_chain 0) weth ''USDC''
      (priced_monitor ''uniswap_v2'' 1000 ''pancake'' 1499)
     = profit_check (sample_chain 0) weth ''USDC'' (''uniswap_v2'', Finite 1000)
         (''pancake'', Finite 1499) (lit (499 / 10)) (priced_monitor ''uniswap_v2'' 1000 ''pancake'' 1499)"
proof -
  have a: "find_spread weth (priced_monitor ''uniswap_v2'' 1000 ''pancake'' 1008)
      = Some (Inr ((''uniswap_v2'', Finite 1000), (''pancake'', Finite 1008), lit (8 / 10)))"
    by code_simp
  have b: "find_spread weth (priced_monitor ''uniswap_v2'' 2 ''pancake'' 3)
      = Some (Inr ((''uniswap_v2'', Finite 2), (''pancake'', Finite 3), lit 50))"
    by code_simp
  have c: "find_spread weth (priced_monitor ''uniswap_v2'' 1000 ''pancake'' 1499)
      = Some (Inr ((''uniswap_v2'', Finite 1000), (''pancake'', Finite 1499), lit (499 / 10)))"
    by code_simp
  show ?thesis
    using spread_band_strict[of weth "priced_monitor ''uniswap_v2'' 1000 ''pancake'' 1008" "sample_chain 0" "''USDC''"]
      spread_band_strict[of weth "priced_monitor ''uniswap_v2'' 2 ''pancake'' 3" "sample_chain 0" "''USDC''"]
      spread_band_strict[of weth "priced_monitor ''uniswap_v2'' 1000 ''pancake'' 1499" "sample_chain 0" "''USDC''"]
      a b c
    by blast
qed

section \<open>Trade execution: proofs\<close>

lemma set_coro_simps [simp]:
  "locked (set_coro i c s) = locked s"
  "waiters (set_coro i c s) = waiters s"
  "trace (set_coro i c s) = trace s"
  "rpc_log (set_coro i c s) = rpc_log s"
  "length (tasks (set_coro i c s)) = length (tasks s)"
  by (simp_all add: set_coro_def)

lemma set_coro_nth:
  "j < length (tasks s) \<Longrightarrow>
   snd (tasks (set_coro i c s) ! j) = (if j = i then c else snd (tasks s ! j))"
  by (simp add: set_coro_def nth_list_update)

lemma set_coro_is:
  assumes "j < length (tasks s)"
  shows "(snd (tasks (set_coro i c s) ! j) = c') \<longleftrightarrow> (if j = i then c = c' else snd (tasks s ! j) = c')"
  using assms by (simp add: set_coro_nth)

lemma set_coro_fst:
  "j < length (tasks s) \<Longrightarrow> fst (tasks (set_coro i c s) ! j) = fst (tasks s ! j)"
  by (cases "j = i") (simp_all add: set_coro_def)

lemma submit_and_wait_frame:
  "locked (snd (submit_and_wait env opp s)) = locked s"
  "waiters (snd (submit_and_wait env opp s)) = waiters s"
  "tasks (snd (submit_and_wait env opp s)) = tasks s"
  "trace (snd (submit_and_wait env opp s)) = trace s"
  by (simp_all add: submit_and_wait_def Let_def split: sum.split option.split)

lemma arbitrage_attempt_frame [simp]:
  "locked (arbitrage_attempt env opp s) = locked s"
  "waiters (arbitrage_attempt env opp s) = waiters s"
  "tasks (arbitrage_attempt env opp s) = tasks s"
proof -
  obtain r s1 where e: "submit_and_wait env opp s = (r, s1)"
    by (cases "submit_and_wait env opp s")
  have f: "locked s1 = locked s" "waiters s1 = waiters s" "tasks s1 = tasks s"
    using submit_and_wait_frame[of env opp s] e by simp_all
  show "locked (arbitrage_attempt env opp s) = locked s"
    using e f by (cases r) (simp_all add: arbitrage_attempt_def)
  show "waiters (arbitrage_attempt env opp s) = waiters s"
    using e f by (cases r) (simp_all add: arbitrage_attempt_def)
  show "tasks (arbitrage_attempt env opp s) = tasks s"
    using e f by (cases r) (simp_all add: arbitrage_attempt_def)
qed

lemma arbitrage_attempt_trace:
  "trace (arbitrage_attempt env opp s) = trace s @ attempt_events (fst (submit_and_wait env opp s))"
proof -
  obtain r s1 where e: "submit_and_wait env opp s = (r, s1)"
    by (cases "submit_and_wait env opp s")
  have "trace s1 = trace s" using submit_and_wait_frame(4)[of env opp s] e by simp
  then show ?thesis
    using e by (cases r) (simp_all add: arbitrage_attempt_def attempt_events_def)
qed

lemma attempt_events_no_lock:
  "count_list (attempt_events r) (LockReleased j) = 0"
  "count_list (attempt_events r) (LockAcquired j) = 0"
  "LogLockBusy \<notin> set (attempt_events r)"
  by (auto simp: attempt_events_def split: sum.splits)

lemma step_holding:
  assumes "i < length (tasks s)" "snd (tasks s ! i) = Holding" "locked s"
  shows "execute_arbitrage_step env i s =
     set_coro i Returned ((arbitrage_attempt env (fst (tasks s ! i)) s)
        \<lparr>locked := False,
         trace := trace (arbitrage_attempt env (fst (tasks s ! i)) s) @ [LockReleased i]\<rparr>)"
  using assms by (simp add: execute_arbitrage_step_def lock_release_def Let_def)

lemma lock_invariantI:
  assumes "length (tasks s') = n"
    and "locked s' \<longleftrightarrow> (\<exists>j<n. snd (tasks s' ! j) = Holding)"
    and "\<And>j k. j < n \<Longrightarrow> k < n \<Longrightarrow> snd (tasks s' ! j) = Holding \<Longrightarrow>
           snd (tasks s' ! k) = Holding \<Longrightarrow> j = k"
    and "distinct (waiters s')"
    and "\<And>j. j \<in> set (waiters s') \<longleftrightarrow> j < n \<and> snd (tasks s' ! j) = Suspended"
  shows "lock_invariant s'"
  unfolding lock_invariant_def using assms by blast

lemma lock_invariantD:
  assumes "lock_invariant s"
  shows "locked s \<longleftrightarrow> (\<exists>j<length (tasks s). snd (tasks s ! j) = Holding)"
    and "\<And>j k. j < length (tasks s) \<Longrightarrow> k < length (tasks s) \<Longrightarrow>
           snd (tasks s ! j) = Holding \<Longrightarrow> snd (tasks s ! k) = Holding \<Longrightarrow> j = k"
    and "distinct (waiters s)"
    and "\<And>j. j \<in> set (waiters s) \<longleftrightarrow> j < length (tasks s) \<and> snd (tasks s ! j) = Suspended"
  using assms unfolding lock_invariant_def by blast+

lemma step_start_free:
  assumes "i < length (tasks s)" "snd (tasks s ! i) = Start" "\<not> locked s" "waiters s = []"
  shows "execute_arbitrage_step env i s =
          set_coro i Holding (s\<lparr>locked := True, trace := trace s @ [LockAcquired i]\<rparr>)"
  using assms by (simp add: execute_arbitrage_step_def after_acquire_def acquire_result_def)

lemma step_start_busy:
  assumes "i < length (tasks s)" "snd (tasks s ! i) = Start" "locked s \<or> waiters s \<noteq> []"
  shows "execute_arbitrage_step env i s = set_coro i Suspended (s\<lparr>waiters := waiters s @ [i]\<rparr>)"
  using assms by (auto simp add: execute_arbitrage_step_def)

lemma step_suspended_woken:
  assumes "i < length (tasks s)" "snd (tasks s ! i) = Suspended" "\<not> locked s" "waiters s = i # ws"
  shows "execute_arbitrage_step env i s =
          set_coro i Holding
            (s\<lparr>locked := True, waiters := ws, trace := trace s @ [LockAcquired i]\<rparr>)"
  using assms by (simp add: execute_arbitrage_step_def after_acquire_def acquire_result_def)

lemma step_suspended_blocked:
  assumes "i < length (tasks s)" "snd (tasks s ! i) = Suspended"
    "locked s \<or> waiters s = [] \<or> hd (waiters s) \<noteq> i"
  shows "execute_arbitrage_step env i s = s"
  using assms by (auto simp add: execute_arbitrage_step_def)

lemma step_finished:
  assumes "length (tasks s) \<le> i \<or> snd (tasks s ! i) = Returned \<or> snd (tasks s ! i) = Raised e"
  shows "execute_arbitrage_step env i s = s"
  using assms by (auto simp add: execute_arbitrage_step_def)

lemma step_invariant:
  assumes inv: "lock_invariant s"
  shows "lock_invariant (execute_arbitrage_step env i s)"
proof (cases "i < length (tasks s)")
  case False
  then show ?thesis using inv by (simp add: step_finished)
next
  case lt: True
  note a = lock_invariantD(1)[OF inv] and b = lock_invariantD(2)[OF inv]
    and c = lock_invariantD(3)[OF inv] and d = lock_invariantD(4)[OF inv]
  show ?thesis
  proof (cases "snd (tasks s ! i)")
    case Start
    show ?thesis
    proof (cases "\<not> locked s \<and> waiters s = []")
      case True
      let ?s' = "set_coro i Holding (s\<lparr>locked := True, trace := trace s @ [LockAcquired i]\<rparr>)"
      have e: "execute_arbitrage_step env i s = ?s'"
        using step_start_free[OF lt Start] True by simp
      have nohold: "\<And>j. j < length (tasks s) \<Longrightarrow> snd (tasks s ! j) \<noteq> Holding"
        using True a by blast
      have nosusp: "\<And>j. j < length (tasks s) \<Longrightarrow> snd (tasks s ! j) \<noteq> Suspended"
        using True d by (metis empty_iff empty_set)
      have H: "\<And>j. j < length (tasks s) \<Longrightarrow> (snd (tasks ?s' ! j) = Holding) = (j = i)"
        using nohold by (simp add: set_coro_is)
      have S: "\<And>j. j < length (tasks s) \<Longrightarrow> snd (tasks ?s' ! j) \<noteq> Suspended"
        using nosusp by (simp add: set_coro_is)
      show ?thesis unfolding e
      proof (rule lock_invariantI[where n = "length (tasks s)"])
        show "length (tasks ?s') = length (tasks s)" by simp
        show "locked ?s' = (\<exists>j<length (tasks s). snd (tasks ?s' ! j) = Holding)"
          using H lt by auto
        show "\<And>j k. j < length (tasks s) \<Longrightarrow> k < length (tasks s) \<Longrightarrow>
            snd (tasks ?s' ! j) = Holding \<Longrightarrow> snd (tasks ?s' ! k) = Holding \<Longrightarrow> j = k"
          using H by metis
        show "distinct (waiters ?s')" using c by simp
        show "\<And>j. (j \<in> set (waiters ?s')) = (j < length (tasks s) \<and> snd (tasks ?s' ! j) = Suspended)"
          using True S by auto
      qed
    next
      case False
      let ?s' = "set_coro i Suspended (s\<lparr>waiters := waiters s @ [i]\<rparr>)"
      have e: "execute_arbitrage_step env i s = ?s'"
        using step_start_busy[OF lt Start] False by blast
      have notin: "i \<notin> set (waiters s)" using d Start by simp
      have H: "\<And>j. j < length (tasks s) \<Longrightarrow>
          (snd (tasks ?s' ! j) = Holding) = (snd (tasks s ! j) = Holding)"
        using Start by (simp add: set_coro_is)
      have S: "\<And>j. j < length (tasks s) \<Longrightarrow>
          (snd (tasks ?s' ! j) = Suspended) = (j = i \<or> snd (tasks s ! j) = Suspended)"
        by (simp add: set_coro_is)
      show ?thesis unfolding e
      proof (rule lock_invariantI[where n = "length (tasks s)"])
        show "length (tasks ?s') = length (tasks s)" by simp
        have "locked ?s' = locked s" by simp
        then show "locked ?s' = (\<exists>j<length (tasks s). snd (tasks ?s' ! j) = Holding)"
          using a H by metis
        show "\<And>j k. j < length (tasks s) \<Longrightarrow> k < length (tasks s) \<Longrightarrow>
            snd (tasks ?s' ! j) = Holding \<Longrightarrow> snd (tasks ?s' ! k) = Holding \<Longrightarrow> j = k"
          using b H by metis
        show "distinct (waiters ?s')" using c notin by simp
        show "\<And>j. (j \<in> set (waiters ?s')) = (j < length (tasks s) \<and> snd (tasks ?s' ! j) = Suspended)"
        proof -
          fix j
          have "(j \<in> set (waiters ?s')) = (j = i \<or> j \<in> set (waiters s))" by auto
          also have "\<dots> = (j < length (tasks s) \<and> (j = i \<or> snd (tasks s ! j) = Suspended))"
            using d lt by blast
          also have "\<dots> = (j < length (tasks s) \<and> snd (tasks ?s' ! j) = Suspended)"
            using S by blast
          finally show "(j \<in> set (waiters ?s')) = (j < length (tasks s) \<and> snd (tasks ?s' ! j) = Suspended)" .
        qed
      qed
    qed
  next
    case Suspended
    show ?thesis
    proof (cases "\<not> locked s \<and> waiters s \<noteq> [] \<and> hd (waiters s) = i")
      case True
      then obtain ws where ws: "waiters s = i # ws" by (cases "waiters s") auto
      let ?s' = "set_coro i Holding
            (s\<lparr>locked := True, waiters := ws, trace := trace s @ [LockAcquired i]\<rparr>)"
      have e: "execute_arbitrage_step env i s = ?s'"
        using step_suspended_woken[OF lt Suspended _ ws] True by simp
      have nohold: "\<And>j. j < length (tasks s) \<Longrightarrow> snd (tasks s ! j) \<noteq> Holding"
        using True a by blast
      have H: "\<And>j. j < length (tasks s) \<Longrightarrow> (snd (tasks ?s' ! j) = Holding) = (j = i)"
        using nohold by (simp add: set_coro_is)
      have S: "\<And>j. j < length (tasks s) \<Longrightarrow>
          (snd (tasks ?s' ! j) = Suspended) = (j \<noteq> i \<and> snd (tasks s ! j) = Suspended)"
        by (simp add: set_coro_is)
      have i_notin: "i \<notin> set ws" and dws: "distinct ws" using c ws by simp_all
      show ?thesis unfolding e
      proof (rule lock_invariantI[where n = "length (tasks s)"])
        show "length (tasks ?s') = length (tasks s)" by simp
        show "locked ?s' = (\<exists>j<length (tasks s). snd (tasks ?s' ! j) = Holding)"
          using H lt by auto
        show "\<And>j k. j < length (tasks s) \<Longrightarrow> k < length (tasks s) \<Longrightarrow>
            snd (tasks ?s' ! j) = Holding \<Longrightarrow> snd (tasks ?s' ! k) = Holding \<Longrightarrow> j = k"
          using H by metis
        show "distinct (waiters ?s')" using dws by simp
        show "\<And>j. (j \<in> set (waiters ?s')) = (j < length (tasks s) \<and> snd (tasks ?s' ! j) = Suspended)"
        proof -
          fix j
          have "(j \<in> set (waiters ?s')) = (j \<in> set ws)" by simp
          also have "\<dots> = (j \<noteq> i \<and> j \<in> set (waiters s))" using ws i_notin by auto
          also have "\<dots> = (j < length (tasks s) \<and> (j \<noteq> i \<and> snd (tasks s ! j) = Suspended))"
            using d by blast
          also have "\<dots> = (j < length (tasks s) \<and> snd (tasks ?s' ! j) = Suspended)"
            using S by blast
          finally show "(j \<in> set (waiters ?s')) = (j < length (tasks s) \<and> snd (tasks ?s' ! j) = Suspended)" .
        qed
      qed
    next
      case False
      then have "execute_arbitrage_step env i s = s"
        using step_suspended_blocked[OF lt Suspended] by blast
      then show ?thesis using inv by simp
    qed
  next
    case Holding
    then have l: "locked s" using a lt by blast
    let ?a = "arbitrage_attempt env (fst (tasks s ! i)) s"
    let ?s' = "set_coro i Returned (?a\<lparr>locked := False, trace := trace ?a @ [LockReleased i]\<rparr>)"
    have e: "execute_arbitrage_step env i s = ?s'"
      by (rule step_holding[OF lt Holding l])
    have only: "\<And>j. j < length (tasks s) \<Longrightarrow> snd (tasks s ! j) = Holding \<Longrightarrow> j = i"
      using b lt Holding by blast
    have H: "\<And>j. j < length (tasks s) \<Longrightarrow> snd (tasks ?s' ! j) \<noteq> Holding"
      using only by (auto simp add: set_coro_is)
    have S: "\<And>j. j < length (tasks s) \<Longrightarrow>
          (snd (tasks ?s' ! j) = Suspended) = (snd (tasks s ! j) = Suspended)"
      using Holding by (simp add: set_coro_is)
    show ?thesis unfolding e
    proof (rule lock_invariantI[where n = "length (tasks s)"])
      show "length (tasks ?s') = length (tasks s)" by simp
      show "locked ?s' = (\<exists>j<length (tasks s). snd (tasks ?s' ! j) = Holding)"
        using H by simp
      show "\<And>j k. j < length (tasks s) \<Longrightarrow> k < length (tasks s) \<Longrightarrow>
            snd (tasks ?s' ! j) = Holding \<Longrightarrow> snd (tasks ?s' ! k) = Holding \<Longrightarrow> j = k"
        using H by blast
      show "distinct (waiters ?s')" using c by simp
      show "\<And>j. (j \<in> set (waiters ?s')) = (j < length (tasks s) \<and> snd (tasks ?s' ! j) = Suspended)"
      proof -
        fix j
        have "(j \<in> set (waiters ?s')) = (j \<in> set (waiters s))" by simp
        also have "\<dots> = (j < length (tasks s) \<and> snd (tasks s ! j) = Suspended)"
          using d by blast
        also have "\<dots> = (j < length (tasks s) \<and> snd (tasks ?s' ! j) = Suspended)"
          using S by blast
        finally show "(j \<in> set (waiters ?s')) = (j < length (tasks s) \<and> snd (tasks ?s' ! j) = Suspended)" .
      qed
    qed
  next
    case Returned
    then have "execute_arbitrage_step env i s = s" using step_finished by blast
    then show ?thesis using inv by simp
  next
    case (Raised e)
    then have "execute_arbitrage_step env i s = s" using step_finished by blast
    then show ?thesis using inv by simp
  qed
qed

lemma run_schedule_invariant:
  "lock_invariant s \<Longrightarrow> lock_invariant (run_schedule env sched s)"
  by (induction sched arbitrary: s) (simp_all add: step_invariant)

lemma step_release_invariant:
  assumes inv: "lock_invariant s" and rel: "release_invariant s"
  shows "release_invariant (execute_arbitrage_step env i s)"
proof (cases "i < length (tasks s)")
  case False
  then show ?thesis using rel by (simp add: step_finished)
next
  case lt: True
  note a = lock_invariantD(1)[OF inv] and d = lock_invariantD(4)[OF inv]
  from rel have
    r: "\<And>j. j < length (tasks s) \<Longrightarrow>
          count_list (trace s) (LockReleased j) = (if snd (tasks s ! j) = Returned then 1 else 0)" and
    q: "\<And>j. j < length (tasks s) \<Longrightarrow> count_list (trace s) (LockAcquired j)
            = (if snd (tasks s ! j) = Holding \<or> snd (tasks s ! j) = Returned then 1 else 0)" and
    x: "\<And>j e. j < length (tasks s) \<Longrightarrow> snd (tasks s ! j) \<noteq> Raised e"
    unfolding release_invariant_def by blast+
  show ?thesis
  proof (cases "snd (tasks s ! i)")
    case Start
    show ?thesis
    proof (cases "\<not> locked s \<and> waiters s = []")
      case True
      have e: "execute_arbitrage_step env i s =
          set_coro i Holding (s\<lparr>locked := True, trace := trace s @ [LockAcquired i]\<rparr>)"
        using step_start_free[OF lt Start] True by simp
      show ?thesis unfolding e release_invariant_def
        using r q x Start by (auto simp: set_coro_nth)
    next
      case False
      have e: "execute_arbitrage_step env i s = set_coro i Suspended (s\<lparr>waiters := waiters s @ [i]\<rparr>)"
        using step_start_busy[OF lt Start] False by blast
      show ?thesis unfolding e release_invariant_def
        using r q x Start by (auto simp: set_coro_nth)
    qed
  next
    case Suspended
    show ?thesis
    proof (cases "\<not> locked s \<and> waiters s \<noteq> [] \<and> hd (waiters s) = i")
      case True
      then obtain ws where ws: "waiters s = i # ws" by (cases "waiters s") auto
      have e: "execute_arbitrage_step env i s = set_coro i Holding
            (s\<lparr>locked := True, waiters := ws, trace := trace s @ [LockAcquired i]\<rparr>)"
        using step_suspended_woken[OF lt Suspended _ ws] True by simp
      show ?thesis unfolding e release_invariant_def
        using r q x Suspended by (auto simp: set_coro_nth)
    next
      case False
      then have "execute_arbitrage_step env i s = s"
        using step_suspended_blocked[OF lt Suspended] by blast
      then show ?thesis using rel by simp
    qed
  next
    case Holding
    then have l: "locked s" using a lt by blast
    note e = step_holding[OF lt Holding l, of env]
    show ?thesis unfolding e release_invariant_def
      using r q x Holding
      by (auto simp: set_coro_nth arbitrage_attempt_trace attempt_events_no_lock)
  next
    case Returned
    then have "execute_arbitrage_step env i s = s" using step_finished by blast
    then show ?thesis using rel by simp
  next
    case (Raised e)
    then have "execute_arbitrage_step env i s = s" using step_finished by blast
    then show ?thesis using rel by simp
  qed
qed

lemma run_schedule_invariants:
  "lock_invariant s \<Longrightarrow> release_invariant s \<Longrightarrow>
   lock_invariant (run_schedule env sched s) \<and> release_invariant (run_schedule env sched s)"
  by (induction sched arbitrary: s) (simp_all add: step_invariant step_release_invariant)

lemma step_length [simp]: "length (tasks (execute_arbitrage_step env i s)) = length (tasks s)"
  by (simp add: execute_arbitrage_step_def after_acquire_def lock_release_def Let_def
      split: coro.split)

lemma run_schedule_length [simp]: "length (tasks (run_schedule env sched s)) = length (tasks s)"
  by (induction sched arbitrary: s) simp_all

lemma step_returned_stays:
  assumes "i < length (tasks s)" "snd (tasks s ! i) = Returned"
  shows "snd (tasks (execute_arbitrage_step env j s) ! i) = Returned"
proof (cases "j = i")
  case True
  then show ?thesis using assms step_finished[of s i] by simp
next
  case False
  then show ?thesis using assms
    by (auto simp: execute_arbitrage_step_def after_acquire_def lock_release_def Let_def set_coro_nth
      split: coro.splits sum.splits)
qed

lemma run_returned_stays:
  "i < length (tasks s) \<Longrightarrow> snd (tasks s ! i) = Returned \<Longrightarrow>
   snd (tasks (run_schedule env sched s) ! i) = Returned"
  by (induction sched arbitrary: s) (simp_all add: step_returned_stays)

lemma init_invariants:
  assumes "\<not> locked s" "waiters s = []" "trace s = []" "\<forall>t \<in> set (tasks s). snd t = Start"
  shows "lock_invariant s \<and> release_invariant s"
  using assms by (auto simp: lock_invariant_def release_invariant_def)


lemma step_no_lock_busy:
  assumes "LogLockBusy \<notin> set (trace s)"
  shows "LogLockBusy \<notin> set (trace (execute_arbitrage_step env i s))"
proof (cases "i < length (tasks s)")
  case False
  then show ?thesis using assms by (simp add: step_finished)
next
  case lt: True
  show ?thesis
  proof (cases "snd (tasks s ! i)")
    case Start
    then show ?thesis using assms lt
      by (cases "\<not> locked s \<and> waiters s = []")
         (auto simp: step_start_free step_start_busy)
  next
    case Suspended
    show ?thesis
    proof (cases "\<not> locked s \<and> waiters s \<noteq> [] \<and> hd (waiters s) = i")
      case True
      then obtain ws where ws: "waiters s = i # ws" by (cases "waiters s") auto
      show ?thesis using step_suspended_woken[OF lt Suspended _ ws] True assms by simp
    next
      case False
      then have "execute_arbitrage_step env i s = s"
        using step_suspended_blocked[OF lt Suspended] by blast
      then show ?thesis using assms by simp
    qed
  next
    case Holding
    then show ?thesis using assms lt
      by (auto simp: execute_arbitrage_step_def lock_release_def Let_def
          arbitrage_attempt_trace attempt_events_no_lock)
  next
    case Returned
    then have "execute_arbitrage_step env i s = s" using step_finished by blast
    then show ?thesis using assms by simp
  next
    case (Raised e)
    then have "execute_arbitrage_step env i s = s" using step_finished by blast
    then show ?thesis using assms by simp
  qed
qed

lemma lock_busy_branch_unreachable:
  "LogLockBusy \<notin> set (trace s) \<Longrightarrow> LogLockBusy \<notin> set (trace (run_schedule env sched s))"
  by (induction sched arbitrary: s) (simp_all add: step_no_lock_busy)

lemma mutual_exclusion:
  assumes "lock_invariant s"
    and "i < length (tasks s)" and "j < length (tasks s)"
    and "snd (tasks (run_schedule env sched s) ! i) = Holding"
    and "snd (tasks (run_schedule env sched s) ! j) = Holding"
  shows "i = j"
  using lock_invariantD(2)[OF run_schedule_invariant[OF assms(1), of env sched], of i j] assms(2-5)
  by simp

text \<open>
  Claim C1. A task that holds the trade lock runs the \<^verbatim>\<open>try\<close> block to its end whatever
  the outcome (receipt with status 1, receipt with another status, no receipt in time,
  any exception on the way) and then releases the lock: the release is the last event of
  the step, the task has returned, the lock is free, the task's release occurs exactly
  once in the events however the other tasks run afterwards, and the next task that asks
  for the lock (the head of the queue, or a new task when nobody waits) gets it.
\<close>

theorem trade_lock_released_exactly_once:
  assumes inv: "lock_invariant s" and rel: "release_invariant s"
    and lt: "i < length (tasks s)" and h: "snd (tasks s ! i) = Holding"
  shows "trace (execute_arbitrage_step env i s)
           = trace s @ attempt_events (fst (submit_and_wait env (fst (tasks s ! i)) s))
               @ [LockReleased i]
       \<and> snd (tasks (execute_arbitrage_step env i s) ! i) = Returned
       \<and> \<not> locked (execute_arbitrage_step env i s)
       \<and> count_list (trace (run_schedule env sched (execute_arbitrage_step env i s)))
            (LockReleased i) = 1
       \<and> (\<forall>j < length (tasks s). snd (tasks s ! j) = Start \<longrightarrow> waiters s = [] \<longrightarrow>
            snd (tasks (execute_arbitrage_step env j (execute_arbitrage_step env i s)) ! j) = Holding)
       \<and> (\<forall>j ws. waiters s = j # ws \<longrightarrow>
            snd (tasks (execute_arbitrage_step env j (execute_arbitrage_step env i s)) ! j) = Holding)"
proof -
  let ?a = "arbitrage_attempt env (fst (tasks s ! i)) s"
  let ?s' = "execute_arbitrage_step env i s"
  have l: "locked s" using lock_invariantD(1)[OF inv] lt h by blast
  have e: "?s' = set_coro i Returned (?a\<lparr>locked := False, trace := trace ?a @ [LockReleased i]\<rparr>)"
    by (rule step_holding[OF lt h l])
  have 1: "trace ?s' = trace s @ attempt_events (fst (submit_and_wait env (fst (tasks s ! i)) s))
               @ [LockReleased i]"
    unfolding e by (simp add: arbitrage_attempt_trace)
  have 2: "snd (tasks ?s' ! i) = Returned"
    unfolding e using lt by (simp add: set_coro_nth)
  have 3: "\<not> locked ?s'" unfolding e by simp
  have w: "waiters ?s' = waiters s" unfolding e by simp
  have other: "\<And>j. j < length (tasks s) \<Longrightarrow> j \<noteq> i \<Longrightarrow> snd (tasks ?s' ! j) = snd (tasks s ! j)"
    unfolding e by (simp add: set_coro_nth)
  have inv': "lock_invariant ?s'" by (rule step_invariant[OF inv])
  have rel': "release_invariant ?s'" by (rule step_release_invariant[OF inv rel])
  have len: "length (tasks ?s') = length (tasks s)" by simp
  have 4: "count_list (trace (run_schedule env sched ?s')) (LockReleased i) = 1"
  proof -
    have r: "release_invariant (run_schedule env sched ?s')"
      using run_schedule_invariants[OF inv' rel'] by blast
    have "snd (tasks (run_schedule env sched ?s') ! i) = Returned"
      using run_returned_stays[of i ?s' env sched] lt 2 len by simp
    then show ?thesis using r lt unfolding release_invariant_def by simp
  qed
  have 5: "\<forall>j < length (tasks s). snd (tasks s ! j) = Start \<longrightarrow> waiters s = [] \<longrightarrow>
            snd (tasks (execute_arbitrage_step env j ?s') ! j) = Holding"
  proof (intro allI impI)
    fix j assume j: "j < length (tasks s)" and st: "snd (tasks s ! j) = Start" and ws: "waiters s = []"
    have ne: "j \<noteq> i" using h st by auto
    have a: "j < length (tasks ?s')" using j len by simp
    have b: "snd (tasks ?s' ! j) = Start" using other[OF j ne] st by simp
    have c: "waiters ?s' = []" using w ws by simp
    show "snd (tasks (execute_arbitrage_step env j ?s') ! j) = Holding"
      unfolding step_start_free[OF a b 3 c] using a by (simp add: set_coro_nth)
  qed
  have 6: "\<forall>j ws. waiters s = j # ws \<longrightarrow>
            snd (tasks (execute_arbitrage_step env j ?s') ! j) = Holding"
  proof (intro allI impI)
    fix j ws assume ws: "waiters s = j # ws"
    have "j \<in> set (waiters s)" using ws by simp
    then have j: "j < length (tasks s)" and su: "snd (tasks s ! j) = Suspended"
      using lock_invariantD(4)[OF inv] by blast+
    have ne: "j \<noteq> i" using h su by auto
    have a: "j < length (tasks ?s')" using j len by simp
    have b: "snd (tasks ?s' ! j) = Suspended" using other[OF j ne] su by simp
    have c: "waiters ?s' = j # ws" using w ws by simp
    show "snd (tasks (execute_arbitrage_step env j ?s') ! j) = Holding"
      unfolding step_suspended_woken[OF a b 3 c] using a by (simp add: set_coro_nth)
  qed
  show ?thesis using 1 2 3 4 5 6 by blast
qed

theorem trade_lock_released_exactly_once_witness:
  "trace (execute_arbitrage_step (trading_chain None) 0
       (execute_arbitrage_step (trading_chain None) 0 (with_tasks [opp_weth, opp_dai])))
     = [LockAcquired 0, LogExecutionError, LockReleased 0]
   \<and> \<not> locked (execute_arbitrage_step (trading_chain None) 0
       (execute_arbitrage_step (trading_chain None) 0 (with_tasks [opp_weth, opp_dai])))
   \<and> count_list (trace (run_schedule (trading_chain None) [1, 0, 1]
       (execute_arbitrage_step (trading_chain None) 0
         (execute_arbitrage_step (trading_chain None) 0 (with_tasks [opp_weth, opp_dai])))))
       (LockReleased 0) = 1"
proof -
  let ?env = "trading_chain None"
  let ?start = "with_tasks [opp_weth, opp_dai]"
  let ?held = "execute_arbitrage_step ?env 0 ?start"
  have i0: "lock_invariant ?start \<and> release_invariant ?start"
    by (rule init_invariants) (simp_all add: with_tasks_def init_monitor_def)
  have inv: "lock_invariant ?held" using i0 step_invariant by blast
  have rel: "release_invariant ?held" using i0 step_release_invariant by blast
  have lt: "0 < length (tasks ?held)" by (simp add: with_tasks_def)
  have h: "snd (tasks ?held ! 0) = Holding" by code_simp
  have t: "trace ?held @ attempt_events (fst (submit_and_wait ?env (fst (tasks ?held ! 0)) ?held)) @ [LockReleased 0]
      = [LockAcquired 0, LogExecutionError, LockReleased 0]"
    by code_simp
  show ?thesis
    using trade_lock_released_exactly_once[OF inv rel lt h, of ?env "[1, 0, 1]"] t by simp
qed

text \<open>
  Claim C2 on two opportunities found together: the second task asks for the lock while
  the first holds it. It is suspended in the queue of the lock, not returned; when the
  first task has released the lock it builds, signs and submits its transaction.
\<close>

theorem busy_lock_queues_second_trade:
  "snd (tasks (run_schedule (trading_chain (Some 1)) [0, 1] (with_tasks [opp_weth, opp_dai])) ! 1)
     = Suspended
   \<and> waiters (run_schedule (trading_chain (Some 1)) [0, 1] (with_tasks [opp_weth, opp_dai])) = [1]
   \<and> trace (run_schedule (trading_chain (Some 1)) [0, 1, 0, 1, 1] (with_tasks [opp_weth, opp_dai]))
     = [LockAcquired 0, LogSuccess, Sleep 60, LockReleased 0,
        LockAcquired 1, LogSuccess, Sleep 60, LockReleased 1]
   \<and> drop 5 (rpc_log (run_schedule (trading_chain (Some 1)) [0, 1, 0, 1, 1]
        (with_tasks [opp_weth, opp_dai])))
     = [GetTransactionCount ''0xme'', GetGasPrice,
        BuildTransaction
          ((''0x50c5725949A6F0c72E6C4a641F24049A917DB0Cb'',
            ''0x833589fCD6eDb6E08f4c7C32D4f71b54bdA02913'', 5000000000,
            ''0x327Df1E6de05895d2ab08513aaDD9313Fe505d86'',
            ''0x6BDED42c6DA8FBf0d2bA55B2fa120C5e0c8D7891'', ''0xme'', 81000000),
           800000, 1000000000, 7),
        SendRawTransaction ''0xf86b'', WaitForTransactionReceipt ''0x5c50'' 300]"
  by code_simp

text \<open>
  Claim C9, as stated: a 60 second cooldown follows every outcome. When no receipt
  arrives within the timeout, the attempt ends without any sleep.
\<close>

theorem no_cooldown_without_receipt:
  "Sleep 60 \<notin> set (trace (run_schedule (trading_chain None) [0, 0] (with_tasks [opp_weth])))"
  by code_simp

lemma submit_and_wait_receipt:
  assumes "fst (submit_and_wait env opp s) = Inr status"
  shows "\<exists>n h. wait_for_transaction_receipt env n h 300 = Some status"
  using assms
  by (auto simp: submit_and_wait_def Let_def split: sum.splits option.splits if_splits)

lemma submit_and_wait_timeout:
  assumes "\<forall>n h t. wait_for_transaction_receipt env n h t = None"
  shows "\<exists>e. fst (submit_and_wait env opp s) = Inl e"
  using assms
  by (cases "fst (submit_and_wait env opp s)") (auto dest: submit_and_wait_receipt)

text \<open>
  Claim C9, amended. A task that holds the lock sleeps 60 seconds, after logging the
  result and before releasing the lock, exactly when the receipt was obtained, whatever
  its status; when anything raised before (and so when no receipt arrives in time) the
  error is logged and the lock is released without a cooldown.
\<close>

theorem cooldown_only_after_receipt:
  assumes inv: "lock_invariant s" and lt: "i < length (tasks s)" and h: "snd (tasks s ! i) = Holding"
  shows "(\<forall>status. fst (submit_and_wait env (fst (tasks s ! i)) s) = Inr status \<longrightarrow>
            (\<exists>n h. wait_for_transaction_receipt env n h 300 = Some status)
            \<and> trace (execute_arbitrage_step env i s)
               = trace s @ [if status = 1 then LogSuccess else LogReverted status, Sleep 60, LockReleased i])
       \<and> (\<forall>e. fst (submit_and_wait env (fst (tasks s ! i)) s) = Inl e \<longrightarrow>
            trace (execute_arbitrage_step env i s) = trace s @ [LogExecutionError, LockReleased i])
       \<and> ((\<forall>n h t. wait_for_transaction_receipt env n h t = None) \<longrightarrow>
            trace (execute_arbitrage_step env i s) = trace s @ [LogExecutionError, LockReleased i])"
proof -
  let ?a = "arbitrage_attempt env (fst (tasks s ! i)) s"
  have l: "locked s" using lock_invariantD(1)[OF inv] lt h by blast
  have e: "execute_arbitrage_step env i s
      = set_coro i Returned (?a\<lparr>locked := False, trace := trace ?a @ [LockReleased i]\<rparr>)"
    by (rule step_holding[OF lt h l])
  have t: "trace (execute_arbitrage_step env i s)
      = trace s @ attempt_events (fst (submit_and_wait env (fst (tasks s ! i)) s)) @ [LockReleased i]"
    unfolding e by (simp add: arbitrage_attempt_trace)
  have 1: "\<forall>status. fst (submit_and_wait env (fst (tasks s ! i)) s) = Inr status \<longrightarrow>
            (\<exists>n h. wait_for_transaction_receipt env n h 300 = Some status)
            \<and> trace (execute_arbitrage_step env i s)
               = trace s @ [if status = 1 then LogSuccess else LogReverted status, Sleep 60, LockReleased i]"
    using t submit_and_wait_receipt by (simp add: attempt_events_def)
  have 2: "\<forall>e. fst (submit_and_wait env (fst (tasks s ! i)) s) = Inl e \<longrightarrow>
            trace (execute_arbitrage_step env i s) = trace s @ [LogExecutionError, LockReleased i]"
    using t by (simp add: attempt_events_def)
  have 3: "(\<forall>n h t. wait_for_transaction_receipt env n h t = None) \<longrightarrow>
            trace (execute_arbitrage_step env i s) = trace s @ [LogExecutionError, LockReleased i]"
    using 2 submit_and_wait_timeout by blast
  show ?thesis using 1 2 3 by blast
qed

theorem cooldown_only_after_receipt_witness:
  "trace (execute_arbitrage_step (trading_chain (Some 1)) 0
       (execute_arbitrage_step (trading_chain (Some 1)) 0 (with_tasks [opp_weth])))
     = [LockAcquired 0, LogSuccess, Sleep 60, LockReleased 0]
   \<and> trace (execute_arbitrage_step (trading_chain None) 0
       (execute_arbitrage_step (trading_chain None) 0 (with_tasks [opp_weth])))
     = [LockAcquired 0, LogExecutionError, LockReleased 0]
   \<and> trace (execute_arbitrage_step dead_chain 0
       (execute_arbitrage_step dead_chain 0 (with_tasks [opp_weth])))
     = [LockAcquired 0, LogExecutionError, LockReleased 0]"
proof -
  let ?start = "with_tasks [opp_weth]"
  have i0: "lock_invariant ?start"
    using init_invariants[of ?start] by (simp add: with_tasks_def init_monitor_def)
  have lt: "\<And>env. 0 < length (tasks (execute_arbitrage_step env 0 ?start))"
    by (simp add: with_tasks_def)
  have inv: "\<And>env. lock_invariant (execute_arbitrage_step env 0 ?start)"
    using i0 step_invariant by blast
  have h1: "snd (tasks (execute_arbitrage_step (trading_chain (Some 1)) 0 ?start) ! 0) = Holding"
    by code_simp
  have h2: "snd (tasks (execute_arbitrage_step (trading_chain None) 0 ?start) ! 0) = Holding"
    by code_simp
  have h3: "snd (tasks (execute_arbitrage_step dead_chain 0 ?start) ! 0) = Holding"
    by code_simp
  have t1: "trace (execute_arbitrage_step (trading_chain (Some 1)) 0 ?start) = [LockAcquired 0]"
    by code_simp
  have t2: "trace (execute_arbitrage_step (trading_chain None) 0 ?start) = [LockAcquired 0]"
    by code_simp
  have t3: "trace (execute_arbitrage_step dead_chain 0 ?start) = [LockAcquired 0]"
    by code_simp
  have r1: "fst (submit_and_wait (trading_chain (Some 1))
        (fst (tasks (execute_arbitrage_step (trading_chain (Some 1)) 0 ?start) ! 0))
        (execute_arbitrage_step (trading_chain (Some 1)) 0 ?start)) = Inr 1"
    by code_simp
  have r2: "\<forall>n h t. wait_for_transaction_receipt (trading_chain None) n h t = None"
    by (simp add: trading_chain_def)
  have r3: "fst (submit_and_wait dead_chain
        (fst (tasks (execute_arbitrage_step dead_chain 0 ?start) ! 0))
        (execute_arbitrage_step dead_chain 0 ?start)) = Inl (RpcError ''get_transaction_count'')"
    by code_simp
  have A: "trace (execute_arbitrage_step (trading_chain (Some 1)) 0
       (execute_arbitrage_step (trading_chain (Some 1)) 0 ?start))
     = [LockAcquired 0, LogSuccess, Sleep 60, LockReleased 0]"
    using cooldown_only_after_receipt[OF inv lt h1, of "trading_chain (Some 1)"] r1 t1 by simp
  have B: "trace (execute_arbitrage_step (trading_chain None) 0
       (execute_arbitrage_step (trading_chain None) 0 ?start))
     = [LockAcquired 0, LogExecutionError, LockReleased 0]"
    using cooldown_only_after_receipt[OF inv lt h2, of "trading_chain None"] r2 t2 by simp
  have C: "trace (execute_arbitrage_step dead_chain 0
       (execute_arbitrage_step dead_chain 0 ?start))
     = [LockAcquired 0, LogExecutionError, LockReleased 0]"
    using cooldown_only_after_receipt[OF inv lt h3, of dead_chain] r3 t3 by simp
  show ?thesis using A B C by blast
qed







end
